theory Spec2Isabelle
  imports Complex_Main "HOL-Library.Word" "HOL-Library.Sublist" "HOL-Library.Log_Nat"
begin

section \<open>JavaScript strings and arrays\<close>

text \<open>
  A JavaScript string is a sequence of UTF-16 code units. A literal of the source is
  written \<open>js ''...''\<close>; every literal of \<^verbatim>\<open>extractNettoReceiptData.js\<close> is ASCII.
  \<open>undefined\<close> (an array read past the end) is \<open>None\<close>, and calling a method
  on \<open>undefined\<close> throws a \<open>TypeError\<close>.
\<close>

type_synonym jschar = "16 word"
type_synonym jsstring = "jschar list"

datatype js_error = TypeError

definition js :: "string \<Rightarrow> jsstring" where
  "js s = map of_char s"

text \<open>\<^verbatim>\<open>arr[i]\<close>: the element, or \<open>undefined\<close> past the end.\<close>

fun nth_opt :: "'a list \<Rightarrow> nat \<Rightarrow> 'a option" where
  "nth_opt [] i = None"
| "nth_opt (x # xs) 0 = Some x"
| "nth_opt (x # xs) (Suc i) = nth_opt xs i"

text \<open>
  \<^verbatim>\<open>String.prototype.split(sep)\<close> with a string separator and no limit. \<open>split_from\<close>
  walks the text with the piece collected since the last separator. An empty separator
  cuts the text into its code units.
\<close>

function split_from :: "jsstring \<Rightarrow> jsstring \<Rightarrow> jsstring \<Rightarrow> jsstring list" where
  "split_from sep acc [] = [acc]"
| "split_from sep acc (c # cs) =
     (if sep \<noteq> [] \<and> prefix sep (c # cs)
      then acc # split_from sep [] (drop (length sep) (c # cs))
      else split_from sep (acc @ [c]) cs)"
  by pat_completeness auto
termination
  by (relation "measure (\<lambda>(sep, acc, s). length s)") auto

definition split :: "jsstring \<Rightarrow> jsstring \<Rightarrow> jsstring list" where
  "split s sep = (if sep = [] then map (\<lambda>c. [c]) s else split_from sep [] s)"

text \<open>\<^verbatim>\<open>Array.prototype.slice(b, e)\<close> for indices \<open>0 \<le> b \<le> e\<close>.\<close>

definition slice :: "nat \<Rightarrow> nat \<Rightarrow> 'a list \<Rightarrow> 'a list" where
  "slice b e xs = take (e - b) (drop b xs)"

text \<open>\<^verbatim>\<open>Array.prototype.join(sep)\<close> on an array of strings.\<close>

fun join :: "jsstring \<Rightarrow> jsstring list \<Rightarrow> jsstring" where
  "join sep [] = []"
| "join sep [x] = x"
| "join sep (x # y # ys) = x @ sep @ join sep (y # ys)"

text \<open>
  \<^verbatim>\<open>String.prototype.replace(pat, rep)\<close> with a string pattern: only the first
  occurrence is replaced. The replacements of the source (\<^verbatim>\<open>''\<close> and \<^verbatim>\<open>'.'\<close>)
  hold no \<^verbatim>\<open>$\<close> pattern.
\<close>

fun replace :: "jsstring \<Rightarrow> jsstring \<Rightarrow> jsstring \<Rightarrow> jsstring" where
  "replace pat rep [] = (if pat = [] then rep else [])"
| "replace pat rep (c # cs) =
     (if prefix pat (c # cs) then rep @ drop (length pat) (c # cs)
      else c # replace pat rep cs)"

text \<open>
  \<^verbatim>\<open>String.prototype.trim()\<close> removes WhiteSpace and LineTerminator code points
  from both ends: TAB, LF, VT, FF, CR, SP, NBSP, the Unicode space separators, LS, PS
  and the byte order mark.
\<close>

definition isWhiteSpace :: "jschar \<Rightarrow> bool" where
  "isWhiteSpace c \<longleftrightarrow>
     (9 \<le> c \<and> c \<le> 13) \<or> c = 32 \<or> c = 160 \<or> c = 0x1680 \<or> (0x2000 \<le> c \<and> c \<le> 0x200A)
     \<or> c = 0x2028 \<or> c = 0x2029 \<or> c = 0x202F \<or> c = 0x205F \<or> c = 0x3000 \<or> c = 0xFEFF"

definition trim :: "jsstring \<Rightarrow> jsstring" where
  "trim s = rev (dropWhile isWhiteSpace (rev (dropWhile isWhiteSpace s)))"

text \<open>\<^verbatim>\<open>Array.prototype.includes\<close> on an array of strings.\<close>

definition array_includes :: "jsstring list \<Rightarrow> jsstring \<Rightarrow> bool" where
  "array_includes xs x \<longleftrightarrow> x \<in> set xs"

section \<open>The segmenter and the address extractor\<close>

text \<open>
  \<^verbatim>\<open>extractStoreAndPurchaseString\<close>: \<^verbatim>\<open>emailBody.split(startString)[1]\<close> is
  \<open>undefined\<close> when the start marker is absent, and the following \<^verbatim>\<open>.split\<close>
  throws. The two fields of the result are array reads and may be \<open>undefined\<close>.
\<close>

record RawSegments =
  storeAddressRaw :: "jsstring option"
  lineItemsRaw :: "jsstring option"

definition extractStoreAndPurchaseString ::
  "jsstring \<Rightarrow> jsstring \<Rightarrow> jsstring \<Rightarrow> jsstring \<Rightarrow> js_error + RawSegments" where
  "extractStoreAndPurchaseString emailBody startString middleString endString =
     (case nth_opt (split emailBody startString) 1 of
        None \<Rightarrow> Inl TypeError
      | Some rest \<Rightarrow>
          (case nth_opt (split rest endString) 0 of
             None \<Rightarrow> Inl TypeError
           | Some storeAndPurchaseString \<Rightarrow>
               (let storeAndPurchaseStringArray = split storeAndPurchaseString middleString
                in Inr \<lparr>storeAddressRaw = nth_opt storeAndPurchaseStringArray 0,
                        lineItemsRaw = nth_opt storeAndPurchaseStringArray 1\<rparr>)))"

text \<open>
  The words in which the segmenter is described: the text before the first occurrence of
  a marker (the whole text when the marker does not occur), and the text after the first
  occurrence (\<open>None\<close> when the marker does not occur).
\<close>

fun text_before :: "jsstring \<Rightarrow> jsstring \<Rightarrow> jsstring" where
  "text_before sep [] = []"
| "text_before sep (c # cs) = (if prefix sep (c # cs) then [] else c # text_before sep cs)"

fun text_after :: "jsstring \<Rightarrow> jsstring \<Rightarrow> jsstring option" where
  "text_after sep [] = (if sep = [] then Some [] else None)"
| "text_after sep (c # cs) =
     (if prefix sep (c # cs) then Some (drop (length sep) (c # cs)) else text_after sep cs)"

text \<open>
  \<^verbatim>\<open>extractStoreAddress\<close>: lines 2 and 3 of the raw block, each without its first
  \<^verbatim>\<open><br>\<close> and trimmed, joined by \<^verbatim>\<open>', '\<close>.
\<close>

definition extractStoreAddress :: "jsstring option \<Rightarrow> js_error + jsstring" where
  "extractStoreAddress storeAddressRaw' =
     (case storeAddressRaw' of
        None \<Rightarrow> Inl TypeError
      | Some raw \<Rightarrow>
          (let addressRawArray = slice 1 3 (split raw (js ''\<newline>''));
               addressArrayClean = map (\<lambda>s. trim (replace (js ''<br>'') (js '''') s)) addressRawArray
           in Inr (join (js '', '') addressArrayClean)))"

section \<open>Regular expressions\<close>

text \<open>
  The four patterns of the source are built from matchers in continuation-passing style,
  as the language definition gives the semantics of a pattern: a matcher takes the
  continuation that matches the rest of the pattern and the text left to read, and
  backtracks into its next alternative when the continuation fails. \<open>None\<close> is failure.
  \<^verbatim>\<open>.\<close> matches every code unit but the line terminators LF, CR, LS and PS.
\<close>

type_synonym 'a cont = "jsstring \<Rightarrow> 'a option"

definition isLineTerminator :: "jschar \<Rightarrow> bool" where
  "isLineTerminator c \<longleftrightarrow> c = 10 \<or> c = 13 \<or> c = 0x2028 \<or> c = 0x2029"

definition dot :: "jschar \<Rightarrow> bool" where
  "dot c \<longleftrightarrow> \<not> isLineTerminator c"

definition digit :: "jschar \<Rightarrow> bool" where
  "digit c \<longleftrightarrow> 48 \<le> c \<and> c \<le> 57"

text \<open>A literal run of characters.\<close>

definition lit :: "jsstring \<Rightarrow> 'a cont \<Rightarrow> 'a cont" where
  "lit p k s = (if prefix p s then k (drop (length p) s) else None)"

text \<open>One character of a class.\<close>

fun one :: "(jschar \<Rightarrow> bool) \<Rightarrow> 'a cont \<Rightarrow> 'a cont" where
  "one P k [] = None"
| "one P k (c # cs) = (if P c then k cs else None)"

text \<open>\<^verbatim>\<open>X*\<close>, greedy: one more character first, the continuation here only when that fails.\<close>

fun star_greedy :: "(jschar \<Rightarrow> bool) \<Rightarrow> 'a cont \<Rightarrow> 'a cont" where
  "star_greedy P k [] = k []"
| "star_greedy P k (c # cs) =
     (if P c
      then (case star_greedy P k cs of Some r \<Rightarrow> Some r | None \<Rightarrow> k (c # cs))
      else k (c # cs))"

text \<open>\<^verbatim>\<open>X*?\<close>, lazy: the continuation here first, one more character only when that fails.\<close>

fun star_lazy :: "(jschar \<Rightarrow> bool) \<Rightarrow> 'a cont \<Rightarrow> 'a cont" where
  "star_lazy P k [] = k []"
| "star_lazy P k (c # cs) =
     (case k (c # cs) of
        Some r \<Rightarrow> Some r
      | None \<Rightarrow> (if P c then star_lazy P k cs else None))"

text \<open>\<^verbatim>\<open>X+\<close> and \<^verbatim>\<open>X+?\<close>: one character, then the starred form.\<close>

definition plus_greedy :: "(jschar \<Rightarrow> bool) \<Rightarrow> 'a cont \<Rightarrow> 'a cont" where
  "plus_greedy P k = one P (star_greedy P k)"

definition plus_lazy :: "(jschar \<Rightarrow> bool) \<Rightarrow> 'a cont \<Rightarrow> 'a cont" where
  "plus_lazy P k = one P (star_lazy P k)"

text \<open>
  A capture group: the continuation receives the text the group matched, which is the
  part of the input between the group's start and the point its body stopped at.
\<close>

definition capture_group :: "('a cont \<Rightarrow> 'a cont) \<Rightarrow> (jsstring \<Rightarrow> 'a cont) \<Rightarrow> 'a cont" where
  "capture_group m k s = m (\<lambda>s'. k (take (length s - length s') s) s') s"

text \<open>
  \<^verbatim>\<open>line.match(re)\<close> for a pattern without flags: the first start index, from the
  left, at which the pattern matches (the end of the text included).
\<close>

fun search :: "'a cont \<Rightarrow> 'a cont" where
  "search m [] = m []"
| "search m (c # cs) = (case m (c # cs) of Some r \<Rightarrow> Some r | None \<Rightarrow> search m cs)"

text \<open>
  The patterns. Those with a group return the text of group 1 (\<^verbatim>\<open>match[1]\<close>);
  \<open>None\<close> is the \<^verbatim>\<open>null\<close> of a failed match.
\<close>

definition itemRegex :: "jsstring \<Rightarrow> jsstring option" where
  \<open>itemRegex =
     search (lit (js ''<td style="font-size:'')
       (plus_greedy dot (lit (js ''>'')
         (capture_group (plus_lazy dot) (\<lambda>cap. lit (js ''</td>'') (\<lambda>_. Some cap))))))\<close>

definition priceRegex :: "jsstring \<Rightarrow> jsstring option" where
  \<open>priceRegex =
     search (lit (js ''<td style="text-align:right;'')
       (plus_greedy dot (lit (js ''>'')
         (capture_group (\<lambda>k. plus_greedy digit (lit (js '','') (one digit (one digit k))))
            (\<lambda>cap. lit (js ''&nbsp;</td>'') (\<lambda>_. Some cap))))))\<close>

definition itemDetailsRegex :: "jsstring \<Rightarrow> jsstring option" where
  \<open>itemDetailsRegex =
     search (lit (js ''<td style="font-size:'')
       (plus_greedy dot (lit (js ''>&nbsp;&nbsp;&nbsp;&nbsp;'')
         (capture_group (star_lazy dot) (\<lambda>cap. lit (js ''</td>'') (\<lambda>_. Some cap))))))\<close>

definition rowDividerRegex :: "jsstring \<Rightarrow> unit option" where
  \<open>rowDividerRegex =
     search (lit (js ''<hr '') (star_greedy dot (lit (js ''/></td>'') (\<lambda>_. Some ()))))\<close>

section \<open>Numbers\<close>

text \<open>
  A JavaScript number is an IEEE 754 double. A finite double is kept as the rational
  number it denotes; \<open>to_double\<close> rounds a non-negative rational to the nearest
  double, ties to the even significand, and to \<open>Infinity\<close> from \<open>2^1024\<close> on.
\<close>

datatype jsnum = Num rat | Infinity | NaN

definition pow2 :: "int \<Rightarrow> rat" where
  "pow2 e = 2 powi e"

text \<open>The exponent \<open>e\<close> with \<open>2^e \<le> q < 2^(e+1)\<close>, for \<open>q > 0\<close>.\<close>

definition binade :: "rat \<Rightarrow> int" where
  "binade q =
     (let (a, b) = quotient_of q;
          d = int (floorlog 2 (nat a)) - int (floorlog 2 (nat b))
      in if pow2 d \<le> q then d else d - 1)"

definition round_half_even :: "rat \<Rightarrow> int" where
  "round_half_even q =
     (let f = \<lfloor>q\<rfloor>; r = q - of_int f
      in if r < 1 / 2 then f else if 1 / 2 < r then f + 1 else if even f then f else f + 1)"

definition to_double :: "rat \<Rightarrow> jsnum" where
  "to_double q =
     (if q \<le> 0 then Num 0
      else (let e = max (binade q) (- 1022);
                ulp = pow2 (e - 52);
                x = of_int (round_half_even (q / ulp)) * ulp
            in if pow2 1024 \<le> x then Infinity else Num x))"

definition digit_val :: "jschar \<Rightarrow> nat" where
  "digit_val c = unat c - 48"

definition digits_val :: "jsstring \<Rightarrow> nat" where
  "digits_val ds = foldl (\<lambda>n c. 10 * n + digit_val c) 0 ds"

text \<open>
  \<^verbatim>\<open>parseFloat\<close> on the literals the scanner passes to it: leading white space, then
  decimal digits with an optional point and fraction; the longest such prefix is read and
  \<open>NaN\<close> is the result when there is no digit. The sign, the exponent part and
  \<^verbatim>\<open>Infinity\<close> of the full numeric literal syntax are left out: the text comes from
  group 1 of \<open>priceRegex\<close>, which holds digits and one comma only.
\<close>

definition parseFloat :: "jsstring \<Rightarrow> jsnum" where
  "parseFloat s =
     (let t = dropWhile isWhiteSpace s;
          ip = takeWhile digit t;
          r = dropWhile digit t;
          fp = (case r of [] \<Rightarrow> [] | c # r' \<Rightarrow> if c = 46 then takeWhile digit r' else [])
      in if ip = [] \<and> fp = [] then NaN
         else to_double (of_nat (digits_val (ip @ fp)) / 10 ^ length fp))"

text \<open>
  \<^verbatim>\<open>Number.prototype.toFixed(f)\<close>, the reformatting to fixed decimal places that the
  round trip of a price is stated with (the source itself never formats a price). For a
  finite \<open>x\<close> below \<open>10^21\<close> in magnitude, \<open>n\<close> is the integer nearest to
  \<open>x * 10^f\<close>, the larger one of two; its decimal digits are padded with zeros to
  \<open>f + 1\<close> places and the point is set before the last \<open>f\<close>. From \<open>10^21\<close> on
  the result is the number's own string in exponent notation, which is left out here
  (\<open>None\<close>).
\<close>

definition digit_char :: "nat \<Rightarrow> jschar" where
  "digit_char v = of_nat (48 + v)"

fun digits_of :: "nat \<Rightarrow> jsstring" where
  "digits_of n =
     (if n < 10 then [digit_char n] else digits_of (n div 10) @ [digit_char (n mod 10)])"

definition toFixed :: "jsnum \<Rightarrow> nat \<Rightarrow> jsstring option" where
  "toFixed x f =
     (case x of
        NaN \<Rightarrow> Some (js ''NaN'')
      | Infinity \<Rightarrow> Some (js ''Infinity'')
      | Num q \<Rightarrow>
          (if 10 ^ 21 \<le> \<bar>q\<bar> then None
           else (let n = nat \<lfloor>\<bar>q\<bar> * 10 ^ f + 1 / 2\<rfloor>;
                     m = digits_of n;
                     m' = (if length m \<le> f then replicate (f + 1 - length m) 48 @ m else m);
                     k = length m';
                     body = (if f = 0 then m else take (k - f) m' @ js ''.'' @ drop (k - f) m')
                 in Some ((if q < 0 then js ''-'' else []) @ body))))"

section \<open>The line filter and the line-item scanner\<close>

record LineItem =
  description :: "jsstring option"
  totalPrice :: "jsnum option"
  details :: "jsstring option"

text \<open>
  The truth value of a field in a condition: \<^verbatim>\<open>null\<close>, the empty string, zero and
  \<open>NaN\<close> are false.
\<close>

fun truthy_string :: "jsstring option \<Rightarrow> bool" where
  "truthy_string None = False"
| "truthy_string (Some s) = (s \<noteq> [])"

fun truthy_number :: "jsnum option \<Rightarrow> bool" where
  "truthy_number None = False"
| "truthy_number (Some (Num q)) = (q \<noteq> 0)"
| "truthy_number (Some Infinity) = True"
| "truthy_number (Some NaN) = False"

text \<open>
  The guard of both pushes:
  \<^verbatim>\<open>currentLineItem.description || currentLineItem.totalPrice || currentLineItem.details\<close>.
\<close>

definition hasData :: "LineItem \<Rightarrow> bool" where
  "hasData item \<longleftrightarrow>
     truthy_string (description item) \<or> truthy_number (totalPrice item)
     \<or> truthy_string (details item)"

definition nullItem :: LineItem where
  "nullItem = \<lparr>description = None, totalPrice = None, details = None\<rparr>"

text \<open>The variables of the loop.\<close>

record scanner =
  lineItems :: "LineItem list"
  currentLineItem :: LineItem
  searchItem :: bool
  searchPrice :: bool
  searchDetail :: bool

definition initial :: scanner where
  "initial = \<lparr>lineItems = [], currentLineItem = nullItem,
               searchItem = False, searchPrice = False, searchDetail = False\<rparr>"

text \<open>\<^verbatim>\<open>lineItems.push({ ...currentLineItem })\<close> under its guard.\<close>

definition pushIfData :: "scanner \<Rightarrow> LineItem list" where
  "pushIfData st =
     (if hasData (currentLineItem st) then lineItems st @ [currentLineItem st]
      else lineItems st)"

text \<open>
  The body of the loop for one line. Each \<^verbatim>\<open>continue\<close> of the source ends the
  step; a search whose flag is off, or whose pattern fails, falls through to the next.
\<close>

definition scanLine :: "scanner \<Rightarrow> jsstring \<Rightarrow> scanner" where
  "scanLine st line =
     (if rowDividerRegex line \<noteq> None
      then \<lparr>lineItems = pushIfData st, currentLineItem = nullItem,
             searchItem = True, searchPrice = False, searchDetail = False\<rparr>
      else
        (case (if searchItem st then itemRegex line else None) of
           Some itemMatch \<Rightarrow>
             st\<lparr>currentLineItem := (currentLineItem st)\<lparr>description := Some (trim itemMatch)\<rparr>,
                searchItem := False, searchPrice := True\<rparr>
         | None \<Rightarrow>
             (case (if searchPrice st then priceRegex line else None) of
                Some priceMatch \<Rightarrow>
                  (let priceStr = replace (js '','') (js ''.'') (trim priceMatch)
                   in st\<lparr>currentLineItem :=
                            (currentLineItem st)\<lparr>totalPrice := Some (parseFloat priceStr)\<rparr>,
                         searchPrice := False, searchDetail := True\<rparr>)
              | None \<Rightarrow>
                  (case (if searchDetail st then itemDetailsRegex line else None) of
                     Some detailMatch \<Rightarrow>
                       st\<lparr>currentLineItem :=
                            (currentLineItem st)\<lparr>details := Some (trim detailMatch)\<rparr>,
                          searchDetail := False\<rparr>
                   | None \<Rightarrow> st))))"

text \<open>\<^verbatim>\<open>for (const line of lineItemsFilteredArray)\<close>.\<close>

fun scanLoop :: "scanner \<Rightarrow> jsstring list \<Rightarrow> scanner" where
  "scanLoop st [] = st"
| "scanLoop st (line # rest) = scanLoop (scanLine st line) rest"

text \<open>The loop from the initial variables, then the push of the last item.\<close>

definition scanLines :: "jsstring list \<Rightarrow> LineItem list" where
  "scanLines lineItemsFilteredArray = pushIfData (scanLoop initial lineItemsFilteredArray)"

definition stringsToRemove :: "jsstring list" where
  "stringsToRemove = [js [], js ''<tr>'', js ''</tr>'', js ''<td>&nbsp;</td>'', js ''<td></td>'']"

text \<open>
  \<^verbatim>\<open>extractLineItemsArray\<close>; its argument is \<open>undefined\<close> when the segmenter
  found no second segment, and \<^verbatim>\<open>.split\<close> throws on it.
\<close>

definition extractLineItemsArray :: "jsstring option \<Rightarrow> js_error + jsstring list" where
  "extractLineItemsArray lineItemsRaw' =
     (case lineItemsRaw' of
        None \<Rightarrow> Inl TypeError
      | Some raw \<Rightarrow>
          Inr (filter (\<lambda>line. \<not> array_includes stringsToRemove (trim line))
                 (split raw (js ''\<newline>''))))"

definition extractLineItems :: "jsstring option \<Rightarrow> js_error + LineItem list" where
  "extractLineItems lineItemsRaw' =
     (case extractLineItemsArray lineItemsRaw' of
        Inl e \<Rightarrow> Inl e
      | Inr lineItemsFilteredArray \<Rightarrow> Inr (scanLines lineItemsFilteredArray))"

text \<open>
  \<^verbatim>\<open>extractNettoReceiptData\<close> of \<^verbatim>\<open>src/extractNettoReceiptData.js\<close>, which
  segments in line. \<open>receiptItems\<close> is the field \<^verbatim>\<open>lineItems\<close> of the result.
\<close>

record ReceiptExtraction =
  storeAddress :: jsstring
  receiptItems :: "LineItem list"

definition extractNettoReceiptData :: "jsstring \<Rightarrow> js_error + ReceiptExtraction" where
  "extractNettoReceiptData emailBody =
     (case nth_opt (split emailBody (js ''Filiale:'')) 1 of
        None \<Rightarrow> Inl TypeError
      | Some rest \<Rightarrow>
     (case nth_opt (split rest (js ''<!-- ZAHLUNGEN -->'')) 0 of
        None \<Rightarrow> Inl TypeError
      | Some storeAndPurchaseString \<Rightarrow>
     (let storeAndPurchaseStringArray = split storeAndPurchaseString (js ''<!-- WARENKORB -->'')
      in
     (case nth_opt storeAndPurchaseStringArray 1 of
        None \<Rightarrow> Inl TypeError
      | Some purchase \<Rightarrow>
     (case extractStoreAddress (nth_opt storeAndPurchaseStringArray 0) of
        Inl e \<Rightarrow> Inl e
      | Inr address \<Rightarrow>
     (case extractLineItems (nth_opt (split purchase (js ''<!-- SUMME -->'')) 0) of
        Inl e \<Rightarrow> Inl e
      | Inr items \<Rightarrow> Inr \<lparr>storeAddress = address, receiptItems = items\<rparr>))))))"

section \<open>Example inputs\<close>

text \<open>Lines of a receipt, as the mock emails of the test suite write them.\<close>

definition line_divider :: jsstring where
  \<open>line_divider = js ''            <tr><td colspan="2"><hr /></td></tr>''\<close>

definition line_milch :: jsstring where
  \<open>line_milch = js ''              <td style="font-size:12px;">Milch 3.5%</td>''\<close>

definition line_price :: jsstring where
  \<open>line_price = js ''              <td style="text-align:right;">1,29&nbsp;</td>''\<close>

definition line_liter :: jsstring where
  \<open>line_liter = js ''              <td style="font-size:10px;">&nbsp;&nbsp;&nbsp;&nbsp;1 Liter</td>''\<close>

text \<open>A description cell that holds one space, and a price of zero.\<close>

definition line_blank :: jsstring where
  \<open>line_blank = js ''              <td style="font-size:12px;"> </td>''\<close>

definition line_zero :: jsstring where
  \<open>line_zero = js ''              <td style="text-align:right;">0,00&nbsp;</td>''\<close>



text \<open>
  The first item block of \<^verbatim>\<open>testBasicReceipt\<close>, as the text between the
  \<^verbatim>\<open>WARENKORB\<close> and \<^verbatim>\<open>SUMME\<close> markers: no divider stands before it.
\<close>

definition milch_block :: jsstring where
  \<open>milch_block = js ''
          <table>
            <tr>
              <td style="font-size:12px;">Milch 3.5%</td>
            </tr>
            <tr>
              <td style="text-align:right;">1,29&nbsp;</td>
            </tr>
            <tr>
              <td style="font-size:10px;">&nbsp;&nbsp;&nbsp;&nbsp;1 Liter</td>
            </tr>
          </table>
          ''\<close>

text \<open>The item the scenario expects; \<^verbatim>\<open>1.29\<close> is the double nearest to 129/100.\<close>

definition milch_item :: LineItem where
  "milch_item = \<lparr>description = Some (js ''Milch 3.5%''),
                  totalPrice = Some (to_double (129 / 100)),
                  details = Some (js ''1 Liter'')\<rparr>"




text \<open>
  The lines of the mock email body of \<^verbatim>\<open>testBasicReceipt\<close> that are left after the
  line filter: the table tags, the first item block, one divider and the second item block.
  The test expects two line items from them, the first one with the description
  \<^verbatim>\<open>Milch 3.5%\<close>.
\<close>

definition line_table :: jsstring where
  \<open>line_table = js ''          <table>''\<close>

definition line_brot :: jsstring where
  \<open>line_brot = js ''              <td style="font-size:12px;">Brot</td>''\<close>

definition line_brot_price :: jsstring where
  \<open>line_brot_price = js ''              <td style="text-align:right;">2,49&nbsp;</td>''\<close>

definition line_brot_details :: jsstring where
  \<open>line_brot_details =
     js ''              <td style="font-size:10px;">&nbsp;&nbsp;&nbsp;&nbsp;500g</td>''\<close>

definition line_table_end :: jsstring where
  \<open>line_table_end = js ''          </table>''\<close>

definition testBasicReceipt_lines :: "jsstring list" where
  "testBasicReceipt_lines =
     [line_table, line_milch, line_price, line_liter, line_divider,
      line_brot, line_brot_price, line_brot_details, line_table_end]"

definition brot_item :: LineItem where
  "brot_item = \<lparr>description = Some (js ''Brot''),
                 totalPrice = Some (to_double (249 / 100)),
                 details = Some (js ''500g'')\<rparr>"

section \<open>Facts about the string operations\<close>

lemma split_from_length: "length (split_from sep acc s) \<ge> 1"
  by (induction sep acc s rule: split_from.induct) auto

lemma split_from_not_Nil: "split_from sep acc s \<noteq> []"
  using split_from_length [of sep acc s] by auto

lemma split_newline_not_Nil: "split raw (js ''\<newline>'') \<noteq> []"
  by (simp add: split_def js_def split_from_not_Nil)

lemma js_markers_not_Nil:
  "js ''Filiale:'' \<noteq> []" "js ''<!-- ZAHLUNGEN -->'' \<noteq> []"
  "js ''<!-- WARENKORB -->'' \<noteq> []" "js ''<!-- SUMME -->'' \<noteq> []"
  by (simp_all add: js_def)

lemma prefix_of_longer: "prefix xs (ys @ zs) \<Longrightarrow> length xs \<le> length ys \<Longrightarrow> prefix xs ys"
  by (auto simp: prefix_append)

text \<open>
  The two words of the segmenter's description: a marker is absent exactly when no text
  stands after it, the text before an absent marker is the whole text, and at the first
  occurrence of a marker they are the two sides of it.
\<close>

lemma text_after_None_iff: "text_after sep s = None \<longleftrightarrow> \<not> sublist sep s"
  by (induction s) (auto simp: sublist_Cons_right)

lemma text_before_absent: "\<not> sublist sep s \<Longrightarrow> text_before sep s = s"
  by (induction s) (auto simp: sublist_Cons_right)

lemma text_first_occurrence:
  assumes "sep \<noteq> []" and "\<not> sublist sep (a @ butlast sep)"
  shows "text_before sep (a @ sep @ b) = a \<and> text_after sep (a @ sep @ b) = Some b"
  using assms(2)
proof (induction a)
  case Nil
  obtain c cs where s: "sep @ b = c # cs" using assms(1) by (cases sep) auto
  have "prefix sep (sep @ b)" by simp
  then show ?case by (simp add: s) (simp add: s [symmetric])
next
  case (Cons c a)
  have np: "\<not> prefix sep (c # a @ sep @ b)"
  proof
    assume p: "prefix sep (c # a @ sep @ b)"
    have "c # a @ sep @ b = ((c # a) @ butlast sep) @ (last sep # b)"
      using assms(1) by simp
    with p have "prefix sep (((c # a) @ butlast sep) @ (last sep # b))" by simp
    moreover have "length sep \<le> length ((c # a) @ butlast sep)" by simp
    ultimately have "prefix sep ((c # a) @ butlast sep)"
      by (rule prefix_of_longer)
    with Cons.prems show False by auto
  qed
  from Cons.prems have "\<not> sublist sep (a @ butlast sep)" by (simp add: sublist_Cons_right)
  with Cons.IH np show ?case by simp
qed

text \<open>
  The pieces of \<^verbatim>\<open>split\<close>: the first piece is the text before the first separator; the
  second piece is cut from the text after it, up to the next separator.
\<close>

lemma split_from_pieces:
  "sep \<noteq> [] \<Longrightarrow>
   split_from sep acc s
     = (acc @ text_before sep s)
       # (case text_after sep s of None \<Rightarrow> [] | Some r \<Rightarrow> split_from sep [] r)"
  by (induction s arbitrary: acc) auto

lemma split_first_piece: "sep \<noteq> [] \<Longrightarrow> nth_opt (split s sep) 0 = Some (text_before sep s)"
  by (simp add: split_def split_from_pieces [of sep "[]" s])

lemma split_second_piece:
  "sep \<noteq> [] \<Longrightarrow> nth_opt (split s sep) 1 = map_option (text_before sep) (text_after sep s)"
proof -
  assume ne: "sep \<noteq> []"
  show ?thesis
  proof (cases "text_after sep s")
    case None
    with ne show ?thesis by (simp add: split_def split_from_pieces [of sep "[]" s])
  next
    case (Some r)
    with ne show ?thesis
      by (simp add: split_def split_from_pieces [of sep "[]" s] split_from_pieces [of sep "[]" r])
  qed
qed

section \<open>The claims about the segmenter and the address extractor\<close>

text \<open>
  C3, amended. With markers that are not empty: when the start marker does not occur in
  the body, the segmenter throws a \<open>TypeError\<close>. When it occurs, the piece is the text
  after its first occurrence up to the next start marker (to the end of the body when
  there is none), and the span is the piece up to the first end marker; an absent end
  marker is no failure, the span is then the whole piece. When the middle marker occurs
  in the span, nothing is thrown: the address block is the span up to the first middle
  marker and the line-items block is the text after it, up to the next middle marker.
\<close>

theorem C3_segmenter_failures:
  assumes "startString \<noteq> []" and "middleString \<noteq> []" and "endString \<noteq> []"
  shows "(\<not> sublist startString emailBody \<longrightarrow>
            extractStoreAndPurchaseString emailBody startString middleString endString
              = Inl TypeError)
       \<and> (sublist startString emailBody \<longrightarrow>
            (\<exists>rest piece span.
               text_after startString emailBody = Some rest
               \<and> piece = text_before startString rest
               \<and> span = text_before endString piece
               \<and> (\<not> sublist endString piece \<longrightarrow> span = piece)
               \<and> (sublist middleString span \<longrightarrow>
                    (\<exists>items.
                       text_after middleString span = Some items
                       \<and> extractStoreAndPurchaseString emailBody startString middleString endString
                           = Inr \<lparr>storeAddressRaw = Some (text_before middleString span),
                                  lineItemsRaw = Some (text_before middleString items)\<rparr>))))"
proof (intro conjI impI)
  assume "\<not> sublist startString emailBody"
  then have "text_after startString emailBody = None" by (simp add: text_after_None_iff)
  with assms(1) have "nth_opt (split emailBody startString) 1 = None"
    using split_second_piece [of startString emailBody] by simp
  then show "extractStoreAndPurchaseString emailBody startString middleString endString = Inl TypeError"
    by (simp add: extractStoreAndPurchaseString_def)
next
  assume "sublist startString emailBody"
  then obtain rest where rest: "text_after startString emailBody = Some rest"
    using text_after_None_iff [of startString emailBody] by auto
  define piece where "piece = text_before startString rest"
  define span where "span = text_before endString piece"
  from assms(1) rest have p: "nth_opt (split emailBody startString) 1 = Some piece"
    using split_second_piece [of startString emailBody] by (simp add: piece_def)
  from assms(3) have s: "nth_opt (split piece endString) 0 = Some span"
    by (simp add: split_first_piece span_def)
  have e: "\<not> sublist endString piece \<longrightarrow> span = piece"
    by (simp add: span_def text_before_absent)
  have m: "sublist middleString span \<longrightarrow>
             (\<exists>items.
                text_after middleString span = Some items
                \<and> extractStoreAndPurchaseString emailBody startString middleString endString
                    = Inr \<lparr>storeAddressRaw = Some (text_before middleString span),
                           lineItemsRaw = Some (text_before middleString items)\<rparr>)"
  proof
    assume "sublist middleString span"
    then obtain items where items: "text_after middleString span = Some items"
      using text_after_None_iff [of middleString span] by auto
    with assms(2) have "nth_opt (split span middleString) 1 = Some (text_before middleString items)"
      using split_second_piece [of middleString span] by simp
    moreover from assms(2) have "nth_opt (split span middleString) 0 = Some (text_before middleString span)"
      by (simp add: split_first_piece)
    ultimately have "extractStoreAndPurchaseString emailBody startString middleString endString
                    = Inr \<lparr>storeAddressRaw = Some (text_before middleString span),
                           lineItemsRaw = Some (text_before middleString items)\<rparr>"
      using p s by (simp add: extractStoreAndPurchaseString_def)
    with items show "\<exists>items.
                text_after middleString span = Some items
                \<and> extractStoreAndPurchaseString emailBody startString middleString endString
                    = Inr \<lparr>storeAddressRaw = Some (text_before middleString span),
                           lineItemsRaw = Some (text_before middleString items)\<rparr>"
      by blast
  qed
  from rest piece_def span_def e m
  show "\<exists>rest piece span.
               text_after startString emailBody = Some rest
               \<and> piece = text_before startString rest
               \<and> span = text_before endString piece
               \<and> (\<not> sublist endString piece \<longrightarrow> span = piece)
               \<and> (sublist middleString span \<longrightarrow>
                    (\<exists>items.
                       text_after middleString span = Some items
                       \<and> extractStoreAndPurchaseString emailBody startString middleString endString
                           = Inr \<lparr>storeAddressRaw = Some (text_before middleString span),
                                  lineItemsRaw = Some (text_before middleString items)\<rparr>))"
    by blast
qed

text \<open>
  C3 at a body without the start marker, and at a body with all three markers.
\<close>

theorem C3_witness:
  "js ''Filiale:'' \<noteq> [] \<and> js ''<!-- WARENKORB -->'' \<noteq> [] \<and> js ''<!-- SUMME -->'' \<noteq> []
   \<and> \<not> sublist (js ''Filiale:'') (js ''<html>no receipt</html>'')
   \<and> extractStoreAndPurchaseString (js ''<html>no receipt</html>'')
         (js ''Filiale:'') (js ''<!-- WARENKORB -->'') (js ''<!-- SUMME -->'') = Inl TypeError
   \<and> sublist (js ''Filiale:'') (js ''x Filiale:A<!-- WARENKORB -->B<!-- SUMME -->C'')
   \<and> sublist (js ''<!-- WARENKORB -->'') (js ''A<!-- WARENKORB -->B'')
   \<and> extractStoreAndPurchaseString (js ''x Filiale:A<!-- WARENKORB -->B<!-- SUMME -->C'')
         (js ''Filiale:'') (js ''<!-- WARENKORB -->'') (js ''<!-- SUMME -->'')
       = Inr \<lparr>storeAddressRaw = Some (js ''A''), lineItemsRaw = Some (js ''B'')\<rparr>"
proof -
  have ne: "js ''Filiale:'' \<noteq> []" "js ''<!-- WARENKORB -->'' \<noteq> []" "js ''<!-- SUMME -->'' \<noteq> []"
    by (rule js_markers_not_Nil)+
  have a: "\<not> sublist (js ''Filiale:'') (js ''<html>no receipt</html>'')"
    by code_simp
  have b: "sublist (js ''Filiale:'') (js ''x Filiale:A<!-- WARENKORB -->B<!-- SUMME -->C'')"
    "sublist (js ''<!-- WARENKORB -->'') (js ''A<!-- WARENKORB -->B'')"
    by code_simp+
  have t: "text_after (js ''Filiale:'') (js ''x Filiale:A<!-- WARENKORB -->B<!-- SUMME -->C'')
             = Some (js ''A<!-- WARENKORB -->B<!-- SUMME -->C'')"
    "text_before (js ''Filiale:'') (js ''A<!-- WARENKORB -->B<!-- SUMME -->C'')
       = js ''A<!-- WARENKORB -->B<!-- SUMME -->C''"
    "text_before (js ''<!-- SUMME -->'') (js ''A<!-- WARENKORB -->B<!-- SUMME -->C'')
       = js ''A<!-- WARENKORB -->B''"
    "text_after (js ''<!-- WARENKORB -->'') (js ''A<!-- WARENKORB -->B'') = Some (js ''B'')"
    "text_before (js ''<!-- WARENKORB -->'') (js ''A<!-- WARENKORB -->B'') = js ''A''"
    "text_before (js ''<!-- WARENKORB -->'') (js ''B'') = js ''B''"
    by code_simp+
  from C3_segmenter_failures [OF ne, of "js ''<html>no receipt</html>''"] a
  have c: "extractStoreAndPurchaseString (js ''<html>no receipt</html>'')
         (js ''Filiale:'') (js ''<!-- WARENKORB -->'') (js ''<!-- SUMME -->'') = Inl TypeError"
    by blast
  from C3_segmenter_failures [OF ne, of "js ''x Filiale:A<!-- WARENKORB -->B<!-- SUMME -->C''"] b(1)
  obtain rest piece span where r: "text_after (js ''Filiale:'') (js ''x Filiale:A<!-- WARENKORB -->B<!-- SUMME -->C'') = Some rest"
    "piece = text_before (js ''Filiale:'') rest" "span = text_before (js ''<!-- SUMME -->'') piece"
    and m: "sublist (js ''<!-- WARENKORB -->'') span \<longrightarrow>
             (\<exists>items.
                text_after (js ''<!-- WARENKORB -->'') span = Some items
                \<and> extractStoreAndPurchaseString (js ''x Filiale:A<!-- WARENKORB -->B<!-- SUMME -->C'')
                      (js ''Filiale:'') (js ''<!-- WARENKORB -->'') (js ''<!-- SUMME -->'')
                    = Inr \<lparr>storeAddressRaw = Some (text_before (js ''<!-- WARENKORB -->'') span),
                           lineItemsRaw = Some (text_before (js ''<!-- WARENKORB -->'') items)\<rparr>)"
    by blast
  from r t have "span = js ''A<!-- WARENKORB -->B''" by simp
  with m b(2) t have d: "extractStoreAndPurchaseString (js ''x Filiale:A<!-- WARENKORB -->B<!-- SUMME -->C'')
         (js ''Filiale:'') (js ''<!-- WARENKORB -->'') (js ''<!-- SUMME -->'')
       = Inr \<lparr>storeAddressRaw = Some (js ''A''), lineItemsRaw = Some (js ''B'')\<rparr>"
    by auto
  from ne a b c d show ?thesis by blast
qed

text \<open>
  C3 as stated fails: a body with the start and middle markers and no end marker is
  segmented without an error.
\<close>

theorem C3_counterexample:
  "sublist (js ''Filiale:'') (js ''Filiale:A<!-- WARENKORB -->B'')
   \<and> nth_opt (split (js ''Filiale:A<!-- WARENKORB -->B'') (js ''Filiale:'')) 1
       = Some (js ''A<!-- WARENKORB -->B'')
   \<and> \<not> sublist (js ''<!-- SUMME -->'') (js ''A<!-- WARENKORB -->B'')
   \<and> extractStoreAndPurchaseString (js ''Filiale:A<!-- WARENKORB -->B'')
         (js ''Filiale:'') (js ''<!-- WARENKORB -->'') (js ''<!-- SUMME -->'')
       = Inr \<lparr>storeAddressRaw = Some (js ''A''), lineItemsRaw = Some (js ''B'')\<rparr>
   \<and> \<not> sublist (js ''<!-- ZAHLUNGEN -->'') (js ''A<!-- WARENKORB -->B'')
   \<and> extractNettoReceiptData (js ''Filiale:A<!-- WARENKORB -->B'')
       = Inr \<lparr>storeAddress = [], receiptItems = []\<rparr>"
  by code_simp

text \<open>
  C7: the address extractor on the raw text of the concrete scenario returns
  \<open>Netto City-Filiale, Hauptstr. 123, 12345 Berlin\<close>: lines 2 and 3 only, the
  \<^verbatim>\<open><br>\<close> marker stripped, trimmed, joined by a comma and a space.
\<close>

theorem C7_address_scenario:
  "extractStoreAddress
     (Some (js ''\<newline>Netto City-Filiale\<newline><br>Hauptstr. 123, 12345 Berlin\<newline><br>extra''))
   = Inr (js ''Netto City-Filiale, Hauptstr. 123, 12345 Berlin'')"
  by code_simp

text \<open>
  C8: a raw address block with fewer than three lines does not make the address extractor
  fail. The slice holds fewer than two lines and the result is a string: the empty string
  when there is one line only (nothing is joined), the cleaned second line when there are
  two (no separator is added).
\<close>

theorem C8_short_address_block:
  assumes "length (split raw (js ''\<newline>'')) < 3"
  shows "length (slice 1 3 (split raw (js ''\<newline>''))) < 2
       \<and> (\<exists>address. extractStoreAddress (Some raw) = Inr address)
       \<and> (length (split raw (js ''\<newline>'')) = 1 \<longrightarrow> extractStoreAddress (Some raw) = Inr [])
       \<and> (length (split raw (js ''\<newline>'')) = 2 \<longrightarrow>
            extractStoreAddress (Some raw)
              = Inr (trim (replace (js ''<br>'') [] (split raw (js ''\<newline>'') ! 1))))"
proof -
  obtain a rest where s: "split raw (js ''\<newline>'') = a # rest" and r: "length rest < 2"
    using assms split_newline_not_Nil [of raw] by (cases "split raw (js ''\<newline>'')") auto
  from r consider "rest = []" | b where "rest = [b]"
    by (cases rest) auto
  then show ?thesis
  proof cases
    case 1
    with s show ?thesis by (simp add: extractStoreAddress_def slice_def js_def)
  next
    case 2
    with s show ?thesis by (simp add: extractStoreAddress_def slice_def js_def)
  qed
qed

text \<open>
  C8 at a block of two lines.
\<close>

theorem C8_witness:
  "length (split (js ''\<newline>Netto City-Filiale'') (js ''\<newline>'')) = 2
   \<and> length (slice 1 3 (split (js ''\<newline>Netto City-Filiale'') (js ''\<newline>''))) < 2
   \<and> extractStoreAddress (Some (js ''\<newline>Netto City-Filiale'')) = Inr (js ''Netto City-Filiale'')"
proof -
  have l: "length (split (js ''\<newline>Netto City-Filiale'') (js ''\<newline>'')) = 2"
    by code_simp
  then have h: "length (split (js ''\<newline>Netto City-Filiale'') (js ''\<newline>'')) < 3"
    by simp
  have e: "trim (replace (js ''<br>'') [] (split (js ''\<newline>Netto City-Filiale'') (js ''\<newline>'') ! 1))
             = js ''Netto City-Filiale''"
    by code_simp
  from C8_short_address_block [OF h] l e show ?thesis by simp
qed

section \<open>Facts about the matchers\<close>














lemma drop_past_literal:
  "n < length p \<Longrightarrow> drop (length a) (drop n (p @ a @ r)) = drop (n + length a) (p @ a) @ r"
  by (simp add: add.commute)

lemma search_sound: "search m s = Some r \<Longrightarrow> \<exists>u v. s = u @ v \<and> m v = Some r"
proof (induction s)
  case Nil
  then show ?case by simp
next
  case (Cons c s)
  show ?case
  proof (cases "m (c # s)")
    case (Some r')
    with Cons.prems have "c # s = [] @ (c # s) \<and> m (c # s) = Some r" by simp
    then show ?thesis by blast
  next
    case None
    with Cons.prems have "search m s = Some r" by simp
    with Cons.IH obtain u v where "s = u @ v" "m v = Some r" by blast
    then have "c # s = (c # u) @ v \<and> m v = Some r" by simp
    then show ?thesis by blast
  qed
qed

lemma lit_sound: "lit p k s = Some r \<Longrightarrow> \<exists>v. s = p @ v \<and> k v = Some r"
  by (auto simp: lit_def prefix_def split: if_splits)

lemma one_sound: "one P k s = Some r \<Longrightarrow> \<exists>c v. s = c # v \<and> P c \<and> k v = Some r"
  by (cases s) (auto split: if_splits)

lemma star_greedy_sound:
  "star_greedy P k s = Some r \<Longrightarrow> \<exists>u v. s = u @ v \<and> list_all P u \<and> k v = Some r"
proof (induction s)
  case Nil
  then show ?case by simp
next
  case (Cons c s)
  show ?case
  proof (cases "P c \<and> star_greedy P k s \<noteq> None")
    case True
    with Cons.prems have "star_greedy P k s = Some r" by auto
    with Cons.IH obtain u v where "s = u @ v" "list_all P u" "k v = Some r" by blast
    with True have "c # s = (c # u) @ v \<and> list_all P (c # u) \<and> k v = Some r" by simp
    then show ?thesis by blast
  next
    case False
    with Cons.prems have "k (c # s) = Some r" by (auto split: if_splits)
    then have "c # s = [] @ (c # s) \<and> list_all P [] \<and> k (c # s) = Some r" by simp
    then show ?thesis by blast
  qed
qed

lemma plus_greedy_sound:
  assumes "plus_greedy P k s = Some r"
  shows "\<exists>u v. s = u @ v \<and> u \<noteq> [] \<and> list_all P u \<and> k v = Some r"
proof -
  from assms obtain c t where s: "s = c # t" and c: "P c" and "star_greedy P k t = Some r"
    unfolding plus_greedy_def by (auto dest: one_sound)
  from star_greedy_sound [OF this(3)] obtain u v where "t = u @ v" "list_all P u" "k v = Some r"
    by blast
  with s c have "s = (c # u) @ v \<and> c # u \<noteq> [] \<and> list_all P (c # u) \<and> k v = Some r" by simp
  then show ?thesis by blast
qed










text \<open>
  Group 1 of the price pattern is always one or more digits, a comma and two digits: the
  text that \<open>parseFloat\<close> receives has no sign and no exponent.
\<close>

lemma price_group_form:
  assumes "capture_group (\<lambda>k. plus_greedy digit (lit (js '','') (one digit (one digit k))))
             (\<lambda>cap. lit (js ''&nbsp;</td>'') (\<lambda>_. Some cap)) s = Some cap"
  shows "\<exists>ds d1 d2. cap = ds @ js '','' @ [d1, d2] \<and> ds \<noteq> [] \<and> list_all digit ds
           \<and> digit d1 \<and> digit d2"
proof -
  let ?K = "\<lambda>s'. lit (js ''&nbsp;</td>'') (\<lambda>_. Some (take (length s - length s') s)) s'"
  from assms have "plus_greedy digit (lit (js '','') (one digit (one digit ?K))) s = Some cap"
    by (simp add: capture_group_def)
  from plus_greedy_sound [OF this] obtain ds v1 where s1: "s = ds @ v1" and ds: "ds \<noteq> []" "list_all digit ds"
    and "lit (js '','') (one digit (one digit ?K)) v1 = Some cap" by blast
  from lit_sound [OF this(4)] obtain v2 where s2: "v1 = js '','' @ v2"
    and "one digit (one digit ?K) v2 = Some cap" by blast
  from one_sound [OF this(2)] obtain d1 v3 where s3: "v2 = d1 # v3" and d1: "digit d1"
    and "one digit ?K v3 = Some cap" by blast
  from one_sound [OF this(3)] obtain d2 s' where s4: "v3 = d2 # s'" and d2: "digit d2"
    and "?K s' = Some cap" by blast
  then have "cap = take (length s - length s') s" by (auto simp: lit_def split: if_splits)
  also have "s = (ds @ js '','' @ [d1, d2]) @ s'" by (simp add: s1 s2 s3 s4)
  finally have "cap = ds @ js '','' @ [d1, d2]" by simp
  with ds d1 d2 show ?thesis by blast
qed

lemma priceRegex_capture_form:
  assumes "priceRegex line = Some cap"
  shows "\<exists>ds d1 d2. cap = ds @ js '','' @ [d1, d2] \<and> ds \<noteq> [] \<and> list_all digit ds
           \<and> digit d1 \<and> digit d2"
proof -
  from assms obtain v where \<open>lit (js ''<td style="text-align:right;'')
       (plus_greedy dot (lit (js ''>'')
         (capture_group (\<lambda>k. plus_greedy digit (lit (js '','') (one digit (one digit k))))
            (\<lambda>cap. lit (js ''&nbsp;</td>'') (\<lambda>_. Some cap))))) v = Some cap\<close>
    unfolding priceRegex_def by (blast dest: search_sound)
  from lit_sound [OF this] obtain v1 where "plus_greedy dot (lit (js ''>'')
         (capture_group (\<lambda>k. plus_greedy digit (lit (js '','') (one digit (one digit k))))
            (\<lambda>cap. lit (js ''&nbsp;</td>'') (\<lambda>_. Some cap)))) v1 = Some cap" by blast
  from plus_greedy_sound [OF this] obtain v2 where "lit (js ''>'')
         (capture_group (\<lambda>k. plus_greedy digit (lit (js '','') (one digit (one digit k))))
            (\<lambda>cap. lit (js ''&nbsp;</td>'') (\<lambda>_. Some cap))) v2 = Some cap" by blast
  from lit_sound [OF this] obtain v3 where
    "capture_group (\<lambda>k. plus_greedy digit (lit (js '','') (one digit (one digit k))))
            (\<lambda>cap. lit (js ''&nbsp;</td>'') (\<lambda>_. Some cap)) v3 = Some cap" by blast
  then show ?thesis by (rule price_group_form)
qed




















section \<open>Facts about numbers\<close>

declare digits_of.simps [simp del]

lemma pow2_pos: "0 < pow2 e"
  by (simp add: pow2_def)

lemma pow2_less_iff: "pow2 a < pow2 b \<longleftrightarrow> a < b"
proof
  assume "pow2 a < pow2 b"
  show "a < b"
  proof (rule ccontr)
    assume "\<not> a < b"
    then have "b \<le> a" by simp
    then have "pow2 b \<le> pow2 a" unfolding pow2_def by (intro power_int_increasing) simp_all
    with \<open>pow2 a < pow2 b\<close> show False by simp
  qed
next
  assume "a < b"
  then show "pow2 a < pow2 b" unfolding pow2_def by (intro power_int_strict_increasing) simp_all
qed

lemma pow2_le_iff: "pow2 a \<le> pow2 b \<longleftrightarrow> a \<le> b"
  using pow2_less_iff [of b a] by (auto simp: not_less [symmetric])

lemma pow2_nat: "pow2 (int n) = 2 ^ n"
  by (simp add: pow2_def)

lemma pow2_diff: "pow2 (a - b) = pow2 a / pow2 b"
  unfolding pow2_def by (rule power_int_diff) simp

lemma pow2_Suc: "pow2 (e + 1) = 2 * pow2 e"
  unfolding pow2_def by (subst power_int_add_1') simp_all

text \<open>
  \<open>binade\<close> is the binary exponent of a positive rational, so \<open>to_double\<close> rounds
  to a significand of 53 bits.
\<close>

lemma binade_bounds:
  assumes "0 < q"
  shows "pow2 (binade q) \<le> q \<and> q < pow2 (binade q + 1)"
proof -
  obtain a b where ab: "quotient_of q = (a, b)" by (cases "quotient_of q")
  then have b: "0 < b" and q: "q = of_int a / of_int b"
    by (rule quotient_of_denom_pos, rule quotient_of_div)
  with assms have a: "0 < a" by (simp add: zero_less_divide_iff)
  define fa where "fa = floorlog 2 (nat a)"
  define fb where "fb = floorlog 2 (nat b)"
  define d where "d = int fa - int fb"
  from a have "2 ^ (fa - 1) \<le> nat a \<and> nat a < 2 ^ fa"
    unfolding fa_def by (intro floorlog_bounds) simp_all
  then have a1: "(2::rat) ^ (fa - 1) \<le> of_int a" and a2: "of_int a < (2::rat) ^ fa"
    using a by (metis of_nat_nat less_imp_le of_nat_le_iff of_nat_numeral of_nat_power,
        metis of_nat_nat less_imp_le of_nat_less_iff of_nat_numeral of_nat_power)
  from b have "2 ^ (fb - 1) \<le> nat b \<and> nat b < 2 ^ fb"
    unfolding fb_def by (intro floorlog_bounds) simp_all
  then have b1: "(2::rat) ^ (fb - 1) \<le> of_int b" and b2: "of_int b < (2::rat) ^ fb"
    using b by (metis of_nat_nat less_imp_le of_nat_le_iff of_nat_numeral of_nat_power,
        metis of_nat_nat less_imp_le of_nat_less_iff of_nat_numeral of_nat_power)
  from a have fa: "0 < fa" unfolding fa_def by (simp add: floorlog_def)
  from b have fb: "0 < fb" unfolding fb_def by (simp add: floorlog_def)
  have bq: "(0::rat) < of_int b" using b by simp
  have up: "q < pow2 (d + 1)"
  proof -
    have "of_int a * (2::rat) ^ (fb - 1) < 2 ^ fa * of_int b"
      using a2 b1 a bq by (intro mult_less_le_imp_less) simp_all
    then have "q < 2 ^ fa / 2 ^ (fb - 1)"
      unfolding q using bq by (simp add: field_simps)
    also have "\<dots> = pow2 (int fa - int (fb - 1))"
      by (simp add: pow2_diff pow2_nat)
    also have "int fa - int (fb - 1) = d + 1" using fb by (simp add: d_def)
    finally show ?thesis .
  qed
  have low: "pow2 (d - 1) < q"
  proof -
    have "(2::rat) ^ (fa - 1) * of_int b < of_int a * 2 ^ fb"
      using a1 b2 a bq by (intro mult_le_less_imp_less) simp_all
    then have "2 ^ (fa - 1) / 2 ^ fb < q"
      unfolding q using bq by (simp add: field_simps)
    moreover have "(2::rat) ^ (fa - 1) / 2 ^ fb = pow2 (int (fa - 1) - int fb)"
      by (simp add: pow2_diff pow2_nat)
    moreover have "int (fa - 1) - int fb = d - 1" using fa by (simp add: d_def)
    ultimately show ?thesis by simp
  qed
  have "binade q = (if pow2 d \<le> q then d else d - 1)"
    by (simp add: binade_def ab d_def fa_def fb_def Let_def)
  with up low show ?thesis by (auto simp: not_le)
qed

lemma binade_unique:
  assumes "0 < q" and "pow2 e \<le> q" and "q < pow2 (e + 1)"
  shows "binade q = e"
proof -
  from binade_bounds [OF assms(1)] assms(2,3)
  have "pow2 (binade q) < pow2 (e + 1)" and "pow2 e < pow2 (binade q + 1)" by simp_all
  then show ?thesis by (simp add: pow2_less_iff)
qed

lemma round_half_even_near: "\<bar>of_int (round_half_even q) - q\<bar> \<le> 1 / 2"
proof -
  have "of_int \<lfloor>q\<rfloor> \<le> q" and "q < of_int \<lfloor>q\<rfloor> + 1" by linarith+
  then show ?thesis by (auto simp: round_half_even_def Let_def)
qed

text \<open>
  A positive rational below \<open>2^46\<close> is rounded to a double at most \<open>2^-8\<close> away.
\<close>

lemma to_double_near:
  assumes "0 < q" and "q < 2 ^ 46"
  shows "\<exists>x. to_double q = Num x \<and> \<bar>x - q\<bar> \<le> 1 / 256"
proof -
  define e where "e = max (binade q) (- 1022)"
  define ulp where "ulp = pow2 (e - 52)"
  define x where "x = of_int (round_half_even (q / ulp)) * ulp"
  from binade_bounds [OF assms(1)] assms(2) have "pow2 (binade q) < pow2 46"
    by (simp add: pow2_def)
  then have "binade q < 46" by (simp add: pow2_less_iff)
  then have "e - 52 \<le> - 7" by (simp add: e_def)
  then have "ulp \<le> pow2 (- 7)" unfolding ulp_def by (simp add: pow2_le_iff)
  then have ulp: "ulp \<le> 1 / 128" by (simp add: pow2_def power_int_minus_divide)
  have pos: "0 < ulp" unfolding ulp_def by (rule pow2_pos)
  have "x - q = (of_int (round_half_even (q / ulp)) - q / ulp) * ulp"
    using pos by (simp add: x_def left_diff_distrib)
  then have "\<bar>x - q\<bar> = \<bar>of_int (round_half_even (q / ulp)) - q / ulp\<bar> * ulp"
    using pos by (simp add: abs_mult)
  also have "\<dots> \<le> 1 / 2 * ulp"
    using pos round_half_even_near [of "q / ulp"] by (intro mult_right_mono) simp_all
  also have "\<dots> \<le> 1 / 256" using ulp by simp
  finally have near: "\<bar>x - q\<bar> \<le> 1 / 256" .
  then have "x \<le> q + 1 / 256" by linarith
  with assms(2) have "x < 2 ^ 46 + 1" by linarith
  also have "\<dots> < pow2 1024" by (simp add: pow2_def)
  finally have "\<not> pow2 1024 \<le> x" by simp
  with assms(1) have "to_double q = Num x"
    by (simp add: to_double_def Let_def e_def ulp_def x_def)
  with near show ?thesis by blast
qed

lemma digit_unat: "digit c \<longleftrightarrow> 48 \<le> unat c \<and> unat c \<le> 57"
  by (simp add: digit_def word_le_nat_alt)

lemma digit_val_less: "digit c \<Longrightarrow> digit_val c < 10"
  by (auto simp: digit_unat digit_val_def)

lemma digit_char_val: "digit c \<Longrightarrow> digit_char (digit_val c) = c"
  by (simp add: digit_unat digit_val_def digit_char_def)

lemma digit_val_zero_iff: "digit c \<Longrightarrow> digit_val c = 0 \<longleftrightarrow> c = 48"
  using word_unat_eq_iff [of c 48] by (auto simp: digit_unat digit_val_def)

lemma digit_not_space: "digit c \<Longrightarrow> \<not> isWhiteSpace c"
  by (auto simp: digit_def isWhiteSpace_def word_le_nat_alt word_unat_eq_iff)

lemma digit_not_sep: "digit c \<Longrightarrow> c \<noteq> 44 \<and> c \<noteq> 46"
  by (auto simp: digit_def word_le_nat_alt)

lemma digits_val_snoc: "digits_val (ds @ [d]) = 10 * digits_val ds + digit_val d"
  by (simp add: digits_val_def)

lemma digits_val_bound: "list_all digit ds \<Longrightarrow> digits_val ds < 10 ^ length ds"
proof (induction ds rule: rev_induct)
  case Nil
  show ?case by (simp add: digits_val_def)
next
  case (snoc d ds)
  then have "digits_val ds < 10 ^ length ds" and "digit_val d < 10"
    by (simp_all add: digit_val_less)
  then have "10 * digits_val ds + digit_val d < 10 * 10 ^ length ds" by linarith
  then show ?case by (simp add: digits_val_snoc)
qed

lemma digits_val_pos:
  "list_all digit ds \<Longrightarrow> ds \<noteq> [] \<Longrightarrow> hd ds \<noteq> 48 \<Longrightarrow> 0 < digits_val ds"
proof (induction ds rule: rev_induct)
  case Nil
  then show ?case by simp
next
  case (snoc d ds)
  show ?case
  proof (cases "ds = []")
    case True
    with snoc.prems digit_val_zero_iff [of d] show ?thesis
      by (simp add: digits_val_def)
  next
    case False
    with snoc have "0 < digits_val ds" by simp
    then show ?thesis by (simp add: digits_val_snoc)
  qed
qed

text \<open>
  Writing out the value of a digit string without a leading zero gives the string back.
\<close>

lemma digits_of_digits_val:
  "list_all digit ds \<Longrightarrow> ds \<noteq> [] \<Longrightarrow> hd ds \<noteq> 48 \<or> ds = [48] \<Longrightarrow>
   digits_of (digits_val ds) = ds"
proof (induction ds rule: rev_induct)
  case Nil
  then show ?case by simp
next
  case (snoc d ds)
  from snoc.prems(1) have d: "digit d" and ds: "list_all digit ds" by simp_all
  show ?case
  proof (cases "ds = []")
    case True
    with d show ?thesis
      by (simp add: digits_val_def digits_of.simps [of "digit_val d"] digit_val_less digit_char_val)
  next
    case False
    with snoc.prems(3) have h: "hd ds \<noteq> 48" by auto
    with ds False have "0 < digits_val ds" by (intro digits_val_pos)
    then have big: "\<not> 10 * digits_val ds + digit_val d < 10" by simp
    from d have "(10 * digits_val ds + digit_val d) div 10 = digits_val ds"
      and "(10 * digits_val ds + digit_val d) mod 10 = digit_val d"
      by (simp_all add: digit_val_less)
    with big have "digits_of (10 * digits_val ds + digit_val d)
        = digits_of (digits_val ds) @ [digit_char (digit_val d)]"
      by (subst digits_of.simps) simp
    with snoc.IH [OF ds False] h d show ?thesis
      by (simp add: digits_val_snoc digit_char_val)
  qed
qed

lemma digits_of_length: "n < 10 \<Longrightarrow> length (digits_of n) = 1"
  by (simp add: digits_of.simps [of n])

lemma padded_digits:
  assumes "list_all digit ds" and "ds \<noteq> []" and "hd ds \<noteq> 48 \<or> ds = [48]"
    and "digit d1" and "digit d2"
  shows "(let m = digits_of (digits_val (ds @ [d1, d2]))
          in if length m \<le> 2 then replicate (2 + 1 - length m) 48 @ m else m) = ds @ [d1, d2]"
proof (cases "ds = [48]")
  case False
  with assms(3) have "hd ds \<noteq> 48" by simp
  with assms have "digits_of (digits_val (ds @ [d1, d2])) = ds @ [d1, d2]"
    by (intro digits_of_digits_val) (auto simp: hd_append)
  with assms(2) show ?thesis by (cases ds) simp_all
next
  case True
  have v: "digits_val (ds @ [d1, d2]) = 10 * digit_val d1 + digit_val d2"
    by (simp add: True digits_val_def digit_val_def)
  show ?thesis
  proof (cases "d1 = 48")
    case d1: True
    then have "digit_val d1 = 0" by (simp add: digit_val_def)
    with v assms(5) have "digits_of (digits_val (ds @ [d1, d2])) = [d2]"
      by (simp add: digits_of.simps [of "digit_val d2"] digit_val_less digit_char_val)
    then show ?thesis by (simp add: True d1 numeral_2_eq_2)
  next
    case d1: False
    with assms(4) have "list_all digit [d1, d2]" "[d1, d2] \<noteq> []" "hd [d1, d2] \<noteq> 48 \<or> [d1, d2] = [48]"
      using assms(5) by simp_all
    then have "digits_of (digits_val [d1, d2]) = [d1, d2]" by (rule digits_of_digits_val)
    moreover have "digits_val [d1, d2] = 10 * digit_val d1 + digit_val d2"
      by (simp add: digits_val_def)
    then have "digits_val [d1, d2] = digits_val (ds @ [d1, d2])"
      by (simp only: v)
    ultimately show ?thesis by (simp add: True)
  qed
qed

lemma trim_price:
  assumes "ds \<noteq> []" and "list_all digit ds" and "digit d2"
  shows "trim (ds @ js '','' @ [d1, d2]) = ds @ js '','' @ [d1, d2]"
proof -
  from assms(1,2) have "\<not> isWhiteSpace (hd ds)" by (cases ds) (auto simp: digit_not_space)
  with assms(1) have "dropWhile isWhiteSpace (ds @ js '','' @ [d1, d2]) = ds @ js '','' @ [d1, d2]"
    by (cases ds) auto
  with assms(3) show ?thesis by (simp add: trim_def digit_not_space)
qed

lemma replace_comma:
  "list_all digit ds \<Longrightarrow> replace (js '','') (js ''.'') (ds @ js '','' @ r) = ds @ js ''.'' @ r"
  by (induction ds) (auto simp: js_def dest: digit_not_sep)

lemma parseFloat_price:
  assumes "ds \<noteq> []" and "list_all digit ds" and "digit d1" and "digit d2"
  shows "parseFloat (ds @ js ''.'' @ [d1, d2])
           = to_double (of_nat (digits_val (ds @ [d1, d2])) / 100)"
proof -
  let ?s = "ds @ js ''.'' @ [d1, d2]"
  from assms(1,2) have "\<not> isWhiteSpace (hd ds)" by (cases ds) (auto simp: digit_not_space)
  with assms(1) have t: "dropWhile isWhiteSpace ?s = ds @ 46 # [d1, d2]"
    by (cases ds) (auto simp: js_def)
  have nd: "\<not> digit 46" by (simp add: digit_def)
  from assms(2) have ip: "takeWhile digit (ds @ 46 # [d1, d2]) = ds"
    using nd by (simp add: takeWhile_tail list_all_iff)
  from assms(2) have r: "dropWhile digit (ds @ 46 # [d1, d2]) = 46 # [d1, d2]"
    using nd by (simp add: list_all_iff)
  from assms(3,4) have fp: "takeWhile digit [d1, d2] = [d1, d2]" by simp
  show ?thesis
    unfolding parseFloat_def t Let_def ip r using assms(1) fp by simp
qed

lemma price_value_rounds_back:
  assumes "q = of_nat N / 100" and "q < 2 ^ 46"
  shows "\<exists>x. to_double q = Num x \<and> 0 \<le> x \<and> x < 10 ^ 21 \<and> nat \<lfloor>x * 100 + 1 / 2\<rfloor> = N"
proof (cases "N = 0")
  case True
  with assms(1) have "to_double q = Num 0" by (simp add: to_double_def)
  with True show ?thesis by simp
next
  case False
  then have "(1::rat) \<le> of_nat N" by simp
  with assms(1) have q: "1 / 100 \<le> q" by simp
  then have "0 < q" by simp
  from to_double_near [OF this assms(2)] obtain x
    where x: "to_double q = Num x" and near: "\<bar>x - q\<bar> \<le> 1 / 256" by blast
  from near q have pos: "0 \<le> x" by linarith
  from near assms(2) have "x < 2 ^ 46 + 1" by linarith
  then have small: "x < 10 ^ 21" by simp
  from near have "q * 100 - 100 / 256 \<le> x * 100" and "x * 100 \<le> q * 100 + 100 / 256"
    by linarith+
  with assms(1) have "of_int (int N) \<le> x * 100 + 1 / 2" and "x * 100 + 1 / 2 < of_int (int N) + 1"
    by simp_all
  then have "\<lfloor>x * 100 + 1 / 2\<rfloor> = int N" by (rule floor_unique)
  with x pos small show ?thesis by simp
qed

lemma digits_val_snoc2:
  "digits_val (ds @ [d1, d2]) = 100 * digits_val ds + 10 * digit_val d1 + digit_val d2"
  using digits_val_snoc [of "ds @ [d1]" d2] digits_val_snoc [of ds d1] by simp

lemma toFixed_price_value:
  assumes "ds \<noteq> []" and "list_all digit ds" and "digit d1" and "digit d2"
    and "hd ds \<noteq> 48 \<or> ds = [48]" and "digits_val ds < 2 ^ 46"
  shows "toFixed (to_double (of_nat (digits_val (ds @ [d1, d2])) / 100)) 2
           = Some (ds @ js ''.'' @ [d1, d2])"
proof -
  define N where "N = digits_val (ds @ [d1, d2])"
  from assms(3,4) have "digit_val d1 < 10" "digit_val d2 < 10" by (simp_all add: digit_val_less)
  with assms(6) have "N < 100 * 2 ^ 46" by (simp add: N_def digits_val_snoc2)
  then have "(of_nat N :: rat) < of_nat (100 * 2 ^ 46)" by (simp only: of_nat_less_iff)
  then have "(of_nat N :: rat) / 100 < 2 ^ 46" by simp
  from price_value_rounds_back [OF refl this] obtain x
    where x: "to_double (of_nat N / 100) = Num x" and pos: "0 \<le> x" and small: "x < 10 ^ 21"
      and n: "nat \<lfloor>x * 100 + 1 / 2\<rfloor> = N" by blast
  have m: "(if length (digits_of N) \<le> 2 then replicate (2 + 1 - length (digits_of N)) 48 @ digits_of N
            else digits_of N) = ds @ [d1, d2]"
    using padded_digits [OF assms(2,1,5,3,4)] by (simp only: Let_def N_def)
  from pos small have c: "(10 ^ 21 \<le> \<bar>x\<bar>) = False" "(x < 0) = False"
    "\<bar>x\<bar> * 10 ^ 2 + 1 / 2 = x * 100 + 1 / 2" "((2::nat) = 0) = False"
    by simp_all
  have "toFixed (Num x) 2
          = Some ([] @ take (length (ds @ [d1, d2]) - 2) (ds @ [d1, d2]) @ js ''.''
                  @ drop (length (ds @ [d1, d2]) - 2) (ds @ [d1, d2]))"
    by (simp only: toFixed_def jsnum.case c if_False Let_def n m)
  then have "toFixed (Num x) 2 = Some (ds @ js ''.'' @ [d1, d2])" by simp
  with x show ?thesis by (simp add: N_def)
qed

lemma js_price_129: "js ''1,29'' = js ''1'' @ js '','' @ [50, 57]"
  "js ''01,29'' = js ''01'' @ js '','' @ [50, 57]"
  "js ''1'' @ js ''.'' @ [50, 57] = js ''1.29''"
  "js ''01'' @ js ''.'' @ [50, 57] = js ''01.29''"
  by (simp_all add: js_def)

lemma digits_val_0129: "digits_val (js ''01'' @ [50, 57]) = 129" "digits_val (js ''1'' @ [50, 57]) = 129"
  by (simp_all add: js_def digits_val_def digit_val_def)

lemma leading_zero_round_trip:
  "toFixed (parseFloat (replace (js '','') (js ''.'') (trim (js ''01,29'')))) 2 = Some (js ''1.29'')"
proof -
  have d: "list_all digit (js ''01'')" "js ''01'' \<noteq> []" "digit 50" "digit 57"
    "list_all digit (js ''1'')" "js ''1'' \<noteq> []" "hd (js ''1'') \<noteq> 48 \<or> js ''1'' = [48]"
    "digits_val (js ''1'') < 2 ^ 46"
    by (simp_all add: js_def digit_def digits_val_def digit_val_def)
  have "replace (js '','') (js ''.'') (trim (js ''01'' @ js '','' @ [50, 57])) = js ''01'' @ js ''.'' @ [50, 57]"
    using trim_price [OF d(2,1,4)] replace_comma [OF d(1)] by simp
  then have "parseFloat (replace (js '','') (js ''.'') (trim (js ''01,29''))) = to_double (129 / 100)"
    using parseFloat_price [OF d(2,1,3,4)] by (simp only: js_price_129 digits_val_0129 of_nat_numeral)
  moreover have "toFixed (to_double (129 / 100)) 2 = Some (js ''1.29'')"
    using toFixed_price_value [OF d(6,5,3,4,7,8)] by (simp only: js_price_129 digits_val_0129 of_nat_numeral)
  ultimately show ?thesis by simp
qed

lemma to_double_2_46: "to_double (7036874417766401 / 100) = Num (4503599627370497 / 64)"
proof -
  have b: "binade (7036874417766401 / 100) = 46"
    by (rule binade_unique) (simp_all add: pow2_def)
  have q: "((7036874417766401 / 100 :: rat) \<le> 0) = False" by simp
  have e: "max (46::int) (- 1022) - 52 = - 6" by simp
  have u: "pow2 (- 6) = 1 / 64"
    by (simp add: pow2_def power_int_minus_divide)
  have "\<lfloor>7036874417766401 / 100 / (1 / 64) :: rat\<rfloor> = 4503599627370496"
    by (rule floor_unique) simp_all
  then have r: "round_half_even (7036874417766401 / 100 / (1 / 64)) = 4503599627370497"
    by (simp add: round_half_even_def Let_def)
  have x: "of_int 4503599627370497 * (1 / 64) = (4503599627370497 / 64 :: rat)" by simp
  have o: "(pow2 1024 \<le> 4503599627370497 / 64) = False" by (simp add: pow2_def)
  show ?thesis
    by (simp only: to_double_def Let_def b q e u r x o if_False)
qed

lemma digits_of_big: "digits_of 7036874417766402 = js ''7036874417766402''"
proof -
  have "list_all digit (js ''7036874417766402'')" "js ''7036874417766402'' \<noteq> []"
    "hd (js ''7036874417766402'') \<noteq> 48 \<or> js ''7036874417766402'' = [48]"
    by (simp_all add: js_def digit_def)
  then have "digits_of (digits_val (js ''7036874417766402'')) = js ''7036874417766402''"
    by (rule digits_of_digits_val)
  moreover have "digits_val (js ''7036874417766402'') = 7036874417766402"
    by (simp add: js_def digits_val_def digit_val_def)
  ultimately show ?thesis by simp
qed

lemma toFixed_2_46: "toFixed (Num (4503599627370497 / 64)) 2 = Some (js ''70368744177664.02'')"
proof -
  have "\<lfloor>\<bar>4503599627370497 / 64\<bar> * 10 ^ 2 + 1 / 2 :: rat\<rfloor> = 7036874417766402"
    by (rule floor_unique) simp_all
  then have n: "nat \<lfloor>\<bar>4503599627370497 / 64\<bar> * 10 ^ 2 + 1 / 2 :: rat\<rfloor> = 7036874417766402"
    by simp
  have c: "(10 ^ 21 \<le> \<bar>4503599627370497 / 64 :: rat\<bar>) = False"
    "((4503599627370497 / 64 :: rat) < 0) = False" "((2::nat) = 0) = False"
    "(length (js ''7036874417766402'') \<le> 2) = False"
    by (simp_all add: js_def)
  have "toFixed (Num (4503599627370497 / 64)) 2
          = Some ([] @ take (length (js ''7036874417766402'') - 2) (js ''7036874417766402'')
                  @ js ''.'' @ drop (length (js ''7036874417766402'') - 2) (js ''7036874417766402''))"
    by (simp only: toFixed_def jsnum.case c if_False Let_def n digits_of_big)
  then show ?thesis by (simp add: js_def)
qed

lemma js_price_big:
  "js ''70368744177664,01'' = js ''70368744177664'' @ js '','' @ [48, 49]"
  by (simp add: js_def)

lemma digits_val_big: "digits_val (js ''70368744177664'' @ [48, 49]) = 7036874417766401"
  by (simp add: js_def digits_val_def digit_val_def)

lemma large_price_round_trip:
  "toFixed (parseFloat (replace (js '','') (js ''.'') (trim (js ''70368744177664,01'')))) 2
     = Some (js ''70368744177664.02'')"
proof -
  have d: "list_all digit (js ''70368744177664'')" "js ''70368744177664'' \<noteq> []" "digit 48" "digit 49"
    by (simp_all add: js_def digit_def)
  have "replace (js '','') (js ''.'') (trim (js ''70368744177664'' @ js '','' @ [48, 49]))
          = js ''70368744177664'' @ js ''.'' @ [48, 49]"
    using trim_price [OF d(2,1,4)] replace_comma [OF d(1)] by simp
  then have "parseFloat (replace (js '','') (js ''.'') (trim (js ''70368744177664,01'')))
          = to_double (7036874417766401 / 100)"
    using parseFloat_price [OF d(2,1,3,4)] by (simp only: js_price_big digits_val_big of_nat_numeral)
  then show ?thesis by (simp only: to_double_2_46 toFixed_2_46)
qed

lemma parse_price_129:
  "parseFloat (replace (js '','') (js ''.'') (trim (js ''1,29''))) = to_double (129 / 100)"
proof -
  have d: "js ''1'' \<noteq> []" "list_all digit (js ''1'')" "digit 50" "digit 57"
    by (simp_all add: js_def digit_def)
  have s: "js ''1,29'' = js ''1'' @ js '','' @ [50, 57]" by (simp add: js_def)
  have v: "digits_val (js ''1'' @ [50, 57]) = 129"
    by (simp add: js_def digits_val_def digit_val_def)
  have "replace (js '','') (js ''.'') (trim (js ''1'' @ js '','' @ [50, 57])) = js ''1'' @ js ''.'' @ [50, 57]"
    using trim_price [OF d(1,2,4)] replace_comma [OF d(2)] by simp
  then show ?thesis
    using parseFloat_price [OF d] by (simp only: s v of_nat_numeral)
qed

lemma parse_price_249:
  "parseFloat (replace (js '','') (js ''.'') (trim (js ''2,49''))) = to_double (249 / 100)"
proof -
  have d: "js ''2'' \<noteq> []" "list_all digit (js ''2'')" "digit 52" "digit 57"
    by (simp_all add: js_def digit_def)
  have s: "js ''2,49'' = js ''2'' @ js '','' @ [52, 57]" by (simp add: js_def)
  have v: "digits_val (js ''2'' @ [52, 57]) = 249"
    by (simp add: js_def digits_val_def digit_val_def)
  have "replace (js '','') (js ''.'') (trim (js ''2'' @ js '','' @ [52, 57])) = js ''2'' @ js ''.'' @ [52, 57]"
    using trim_price [OF d(1,2,4)] replace_comma [OF d(2)] by simp
  then show ?thesis
    using parseFloat_price [OF d] by (simp only: s v of_nat_numeral)
qed

section \<open>The claim about the price\<close>

text \<open>
  C6, amended. For a price string \<open>D,DD\<close> whose integer part \<open>D\<close> has no leading
  zero (or is the single digit \<open>0\<close>) and a value below \<open>2^46 = 70368744177664\<close>,
  replacing the comma by a point, parsing and formatting with two fixed decimal places
  gives \<open>D.DD\<close> back.
\<close>

theorem C6_price_round_trip:
  assumes "ds \<noteq> []" and "list_all digit ds" and "digit d1" and "digit d2"
    and "hd ds \<noteq> 48 \<or> ds = js ''0''" and "digits_val ds < 2 ^ 46"
  shows "toFixed (parseFloat (replace (js '','') (js ''.'') (trim (ds @ js '','' @ [d1, d2])))) 2
           = Some (ds @ js ''.'' @ [d1, d2])"
proof -
  from assms(5) have c: "hd ds \<noteq> 48 \<or> ds = [48]" by (simp add: js_def)
  have "replace (js '','') (js ''.'') (trim (ds @ js '','' @ [d1, d2])) = ds @ js ''.'' @ [d1, d2]"
    using assms(1,2,4) by (simp add: trim_price replace_comma)
  then show ?thesis
    using assms(1,2,3,4) c assms(6) by (simp add: parseFloat_price toFixed_price_value)
qed

text \<open>
  C6 at the price \<open>1,29\<close>.
\<close>

theorem C6_witness:
  "js ''1'' \<noteq> [] \<and> list_all digit (js ''1'') \<and> digit 50 \<and> digit 57
   \<and> hd (js ''1'') \<noteq> 48 \<and> digits_val (js ''1'') < 2 ^ 46
   \<and> toFixed (parseFloat (replace (js '','') (js ''.'') (trim (js ''1,29'')))) 2 = Some (js ''1.29'')"
proof -
  have h: "js ''1'' \<noteq> []" "list_all digit (js ''1'')" "digit 50" "digit 57"
    "hd (js ''1'') \<noteq> 48" "digits_val (js ''1'') < 2 ^ 46"
    by (simp_all add: js_def digit_def digits_val_def digit_val_def)
  from h(5) have h5: "hd (js ''1'') \<noteq> 48 \<or> js ''1'' = js ''0''" by simp
  from C6_price_round_trip [OF h(1,2,3,4) h5 h(6)] h show ?thesis
    by (simp only: js_price_129 simp_thms)
qed

text \<open>
  C6 as stated fails. A leading zero is not written back: \<open>01,29\<close> becomes
  \<open>1.29\<close>. From \<open>2^46\<close> on the doubles are more than a cent apart: the first
  price there that is not a double, \<open>70368744177664,01\<close>, is parsed as
  70368744177664.015625 and written as \<open>70368744177664.02\<close>.
\<close>

theorem C6_counterexample:
  "toFixed (parseFloat (replace (js '','') (js ''.'') (trim (js ''01,29'')))) 2 = Some (js ''1.29'')
   \<and> js ''1.29'' \<noteq> js ''01.29''
   \<and> toFixed (parseFloat (replace (js '','') (js ''.'') (trim (js ''70368744177664,01'')))) 2
       = Some (js ''70368744177664.02'')
   \<and> js ''70368744177664.02'' \<noteq> js ''70368744177664.01''"
  using leading_zero_round_trip large_price_round_trip by (simp add: js_def)

section \<open>Facts about the scanner\<close>

lemma scanLoop_append: "scanLoop st (xs @ ys) = scanLoop (scanLoop st xs) ys"
  by (induction xs arbitrary: st) auto

lemma scanLine_idle:
  assumes "rowDividerRegex l = None" "\<not> searchItem st" "\<not> searchPrice st" "\<not> searchDetail st"
  shows "scanLine st l = st"
  using assms by (simp add: scanLine_def)

lemma scanLoop_initial_no_divider:
  "\<forall>l \<in> set pre. rowDividerRegex l = None \<Longrightarrow> scanLoop initial pre = initial"
proof (induction pre)
  case Nil
  show ?case by simp
next
  case (Cons l pre)
  have "scanLine initial l = initial"
    using Cons.prems by (intro scanLine_idle) (simp_all add: initial_def)
  with Cons show ?case by simp
qed

lemma scanLine_divider:
  "rowDividerRegex l \<noteq> None \<Longrightarrow>
   scanLine st l = \<lparr>lineItems = pushIfData st, currentLineItem = nullItem,
             searchItem = True, searchPrice = False, searchDetail = False\<rparr>"
  by (simp add: scanLine_def)

lemma scanLine_no_divider_items:
  "rowDividerRegex l = None \<Longrightarrow> lineItems (scanLine st l) = lineItems st"
  by (simp add: scanLine_def Let_def split: option.splits)

lemma scanLine_items:
  "lineItems (scanLine st l) = (if rowDividerRegex l \<noteq> None then pushIfData st else lineItems st)"
  by (cases "rowDividerRegex l") (simp_all add: scanLine_divider scanLine_no_divider_items)


lemma pushIfData_length: "length (pushIfData st) \<le> length (lineItems st) + 1"
  by (simp add: pushIfData_def)

lemma scanLoop_length:
  "length (lineItems (scanLoop st ls))
     \<le> length (lineItems st) + length (filter (\<lambda>l. rowDividerRegex l \<noteq> None) ls)"
proof (induction ls arbitrary: st)
  case Nil
  show ?case by simp
next
  case (Cons l ls)
  have "length (lineItems (scanLine st l))
          \<le> length (lineItems st) + (if rowDividerRegex l \<noteq> None then 1 else 0)"
    using pushIfData_length [of st] by (simp add: scanLine_items)
  with Cons.IH [of "scanLine st l"] show ?case by (simp split: if_splits)
qed

lemma positions_snoc:
  "[i \<leftarrow> [0..<length (xs @ [x])]. D ((xs @ [x]) ! i)]
     = [i \<leftarrow> [0..<length xs]. D (xs ! i)] @ (if D x then [length xs] else [])"
proof -
  have "[i \<leftarrow> [0..<length xs]. D ((xs @ [x]) ! i)] = [i \<leftarrow> [0..<length xs]. D (xs ! i)]"
    by (rule filter_cong) (simp_all add: nth_append)
  then show ?thesis by simp
qed

lemma map_take_snoc:
  "map (\<lambda>i. f (take i (xs @ [x]))) [i \<leftarrow> [0..<length xs]. D (xs ! i)]
     = map (\<lambda>i. f (take i xs)) [i \<leftarrow> [0..<length xs]. D (xs ! i)]"
  by (rule map_cong) simp_all

lemma not_hasData_nullItem: "\<not> hasData nullItem"
  by (simp add: hasData_def nullItem_def)

lemma hasData_non_null:
  "hasData item \<Longrightarrow> description item \<noteq> None \<or> totalPrice item \<noteq> None \<or> details item \<noteq> None"
  by (auto simp: hasData_def)

lemma pushIfData_all_hasData:
  "\<forall>item \<in> set (lineItems st). hasData item \<Longrightarrow> \<forall>item \<in> set (pushIfData st). hasData item"
  by (simp add: pushIfData_def)

lemma scanLine_all_hasData:
  "\<forall>item \<in> set (lineItems st). hasData item \<Longrightarrow> \<forall>item \<in> set (lineItems (scanLine st l)). hasData item"
  using pushIfData_all_hasData [of st] by (simp add: scanLine_items)

lemma scanLoop_all_hasData:
  "\<forall>item \<in> set (lineItems st). hasData item \<Longrightarrow> \<forall>item \<in> set (lineItems (scanLoop st ls)). hasData item"
proof (induction ls arbitrary: st)
  case Nil
  then show ?case by simp
next
  case (Cons l ls)
  from Cons.prems have "\<forall>item \<in> set (lineItems (scanLine st l)). hasData item"
    by (rule scanLine_all_hasData)
  then show ?case using Cons.IH by simp
qed

lemma scanLines_all_hasData: "\<forall>item \<in> set (scanLines ls). hasData item"
  unfolding scanLines_def
  by (rule pushIfData_all_hasData, rule scanLoop_all_hasData) (simp add: initial_def)

lemma divider_matches: "rowDividerRegex line_divider \<noteq> None"
  by code_simp

lemma after_milch:
  "scanLoop initial [line_divider, line_milch]
     = \<lparr>lineItems = [],
        currentLineItem = \<lparr>description = Some (js ''Milch 3.5%''), totalPrice = None, details = None\<rparr>,
        searchItem = False, searchPrice = True, searchDetail = False\<rparr>"
  by code_simp



lemma example_dividers:
  "rowDividerRegex line_divider = Some ()"
  "rowDividerRegex line_table = None"
  "rowDividerRegex line_milch = None"
  "rowDividerRegex line_price = None"
  "rowDividerRegex line_liter = None"
  "rowDividerRegex line_brot = None"
  "rowDividerRegex line_brot_price = None"
  "rowDividerRegex line_brot_details = None"
  "rowDividerRegex line_table_end = None"
  by code_simp+

lemma example_matches:
  "itemRegex line_milch = Some (js ''Milch 3.5%'')"
  "priceRegex line_price = Some (js ''1,29'')"
  "itemDetailsRegex line_liter = Some (js ''1 Liter'')"
  "itemRegex line_brot = Some (js ''Brot'')"
  "priceRegex line_brot_price = Some (js ''2,49'')"
  "itemDetailsRegex line_brot_details = Some (js ''500g'')"
  by code_simp+

lemma example_trims:
  "trim (js ''Milch 3.5%'') = js ''Milch 3.5%''"
  "trim (js ''1 Liter'') = js ''1 Liter''"
  "trim (js ''Brot'') = js ''Brot''"
  "trim (js ''500g'') = js ''500g''"
  "js ''Milch 3.5%'' \<noteq> []" "js ''Brot'' \<noteq> []"
  by code_simp+

text \<open>
  The items pushed by the loop are the items in progress at the divider lines that have
  data, in the order of the lines.
\<close>

lemma scanLoop_items_gen:
  assumes "D = (\<lambda>l. rowDividerRegex l \<noteq> None)"
  shows "lineItems (scanLoop st ls)
     = lineItems st
       @ filter hasData
           (map (\<lambda>i. currentLineItem (scanLoop st (take i ls)))
              [i \<leftarrow> [0..<length ls]. D (ls ! i)])"
proof (induction ls rule: rev_induct)
  case Nil
  show ?case by simp
next
  case (snoc x xs)
  have "lineItems (scanLoop st (xs @ [x]))
          = (if D x then pushIfData (scanLoop st xs) else lineItems (scanLoop st xs))"
    unfolding assms by (simp add: scanLoop_append scanLine_items)
  also have "\<dots> = lineItems (scanLoop st xs)
        @ filter hasData (if D x then [currentLineItem (scanLoop st xs)] else [])"
    by (simp add: pushIfData_def)
  also have "\<dots> = lineItems st
       @ filter hasData
           (map (\<lambda>i. currentLineItem (scanLoop st (take i (xs @ [x]))))
              [i \<leftarrow> [0..<length (xs @ [x])]. D ((xs @ [x]) ! i)])"
    unfolding positions_snoc map_append filter_append
      map_take_snoc [of "\<lambda>ys. currentLineItem (scanLoop st ys)" xs x D] snoc.IH
    by simp
  finally show ?case .
qed

lemma scanLoop_items:
  "lineItems (scanLoop st ls)
     = lineItems st
       @ filter hasData
           (map (\<lambda>i. currentLineItem (scanLoop st (take i ls)))
              [i \<leftarrow> [0..<length ls]. rowDividerRegex (ls ! i) \<noteq> None])"
  by (rule scanLoop_items_gen) (rule refl)

text \<open>
  The three lines of the scenario after a divider give exactly the expected item.
\<close>

lemma milch_block_after_divider:
  "scanLines [line_divider, line_milch, line_price, line_liter] = [milch_item]"
  by (simp add: scanLines_def scanLine_def initial_def pushIfData_def hasData_def nullItem_def
      example_dividers example_matches example_trims parse_price_129 milch_item_def)

text \<open>
  The filtered lines of \<^verbatim>\<open>testBasicReceipt\<close> give one item, not the two that the test
  expects: the first block stands before the first divider and is skipped.
\<close>

lemma testBasicReceipt_one_item: "scanLines testBasicReceipt_lines = [brot_item]"
  by (simp add: testBasicReceipt_lines_def scanLines_def scanLine_def initial_def pushIfData_def
      hasData_def nullItem_def example_dividers example_matches example_trims parse_price_249
      brot_item_def)

section \<open>The claims about the scanner\<close>

text \<open>
  C1, at the item block of the scenario as the test suite writes it (description line,
  price line, details line, no divider before them): the scanner starts with all three
  search flags off and only a divider turns the description search on, so the three lines
  are skipped and no item is returned. This is also why \<^verbatim>\<open>testBasicReceipt\<close> of the
  repository, whose first block has no divider before it, gets one item where it expects
  two (\<open>testBasicReceipt_one_item\<close> above).
\<close>

theorem C1_first_block_without_divider:
  "extractLineItems (Some milch_block) = Inr []"
  by code_simp

text \<open>
  C2, amended. An item is pushed at a divider or at the end of the input, and nowhere
  else, exactly when one of its fields is true as a condition: a non-empty string or a
  number other than zero. Every item of the output therefore has a field that is not
  \<open>null\<close>, and the item with three \<open>null\<close> fields is never in the output.
\<close>

theorem C2_pushed_iff_truthy_field:
  "(rowDividerRegex l \<noteq> None \<longrightarrow>
      lineItems (scanLine st l)
        = lineItems st @ (if hasData (currentLineItem st) then [currentLineItem st] else []))
   \<and> (rowDividerRegex l = None \<longrightarrow> lineItems (scanLine st l) = lineItems st)
   \<and> scanLines ls
        = lineItems (scanLoop initial ls)
          @ (if hasData (currentLineItem (scanLoop initial ls))
             then [currentLineItem (scanLoop initial ls)] else [])
   \<and> (\<forall>item \<in> set (scanLines ls).
         hasData item \<and> (description item \<noteq> None \<or> totalPrice item \<noteq> None \<or> details item \<noteq> None))
   \<and> nullItem \<notin> set (scanLines ls)"
proof -
  have a: "rowDividerRegex l \<noteq> None \<longrightarrow>
      lineItems (scanLine st l)
        = lineItems st @ (if hasData (currentLineItem st) then [currentLineItem st] else [])"
    by (simp add: scanLine_divider pushIfData_def)
  have b: "rowDividerRegex l = None \<longrightarrow> lineItems (scanLine st l) = lineItems st"
    by (simp add: scanLine_no_divider_items)
  have c: "scanLines ls
        = lineItems (scanLoop initial ls)
          @ (if hasData (currentLineItem (scanLoop initial ls))
             then [currentLineItem (scanLoop initial ls)] else [])"
    by (simp add: scanLines_def pushIfData_def)
  have d: "\<forall>item \<in> set (scanLines ls).
         hasData item \<and> (description item \<noteq> None \<or> totalPrice item \<noteq> None \<or> details item \<noteq> None)"
    using scanLines_all_hasData [of ls] hasData_non_null by blast
  have e: "nullItem \<notin> set (scanLines ls)"
    using scanLines_all_hasData [of ls] not_hasData_nullItem by blast
  from a b c d e show ?thesis by blast
qed

text \<open>
  C2 at a divider that follows a description line.
\<close>

theorem C2_witness:
  "rowDividerRegex line_divider \<noteq> None
   \<and> lineItems (scanLine (scanLoop initial [line_divider, line_milch]) line_divider)
       = [\<lparr>description = Some (js ''Milch 3.5%''), totalPrice = None, details = None\<rparr>]
   \<and> scanLines [line_divider, line_milch]
       = [\<lparr>description = Some (js ''Milch 3.5%''), totalPrice = None, details = None\<rparr>]"
proof -
  have t: "hasData \<lparr>description = Some (js ''Milch 3.5%''), totalPrice = None, details = None\<rparr>"
    by (simp add: hasData_def js_def)
  from C2_pushed_iff_truthy_field
         [of line_divider "scanLoop initial [line_divider, line_milch]" "[line_divider, line_milch]"]
       divider_matches t
  show ?thesis by (simp add: after_milch del: scanLoop.simps)
qed

text \<open>
  C2 as stated fails: after a divider, a description cell that holds one space and a price
  of \<open>0,00\<close> leave an item with two fields that are not \<open>null\<close> (the empty string
  and zero), and the item is not in the output.
\<close>

theorem C2_counterexample:
  "currentLineItem (scanLoop initial [line_divider, line_blank, line_zero])
     = \<lparr>description = Some [], totalPrice = Some (Num 0), details = None\<rparr>
   \<and> scanLines [line_divider, line_blank, line_zero] = []"
  by code_simp

text \<open>
  C4: the output is exactly the sequence of the items in progress at the flushes, one
  flush at each divider line and one at the end of the input, in the order of the lines,
  without those that have no data. Nothing else is left out, so nothing is sorted and an
  item equal to an earlier one is pushed again, as the two equal items of the last part
  show. With N divider lines there are N + 1 flushes, hence at most N + 1 items.
\<close>

theorem C4_at_most_dividers_plus_one_in_order:
  "scanLines ls
     = filter hasData
         (map (\<lambda>i. currentLineItem (scanLoop initial (take i ls)))
            ([i \<leftarrow> [0..<length ls]. rowDividerRegex (ls ! i) \<noteq> None] @ [length ls]))
   \<and> length (scanLines ls) \<le> length (filter (\<lambda>l. rowDividerRegex l \<noteq> None) ls) + 1
   \<and> scanLines [line_divider, line_milch, line_divider, line_milch]
       = [\<lparr>description = Some (js ''Milch 3.5%''), totalPrice = None, details = None\<rparr>,
          \<lparr>description = Some (js ''Milch 3.5%''), totalPrice = None, details = None\<rparr>]"
proof (intro conjI)
  show "scanLines ls
     = filter hasData
         (map (\<lambda>i. currentLineItem (scanLoop initial (take i ls)))
            ([i \<leftarrow> [0..<length ls]. rowDividerRegex (ls ! i) \<noteq> None] @ [length ls]))"
    unfolding scanLines_def pushIfData_def scanLoop_items [of initial ls]
    by (simp add: initial_def)
  show "length (scanLines ls) \<le> length (filter (\<lambda>l. rowDividerRegex l \<noteq> None) ls) + 1"
    using scanLoop_length [of initial ls] pushIfData_length [of "scanLoop initial ls"]
    by (simp add: scanLines_def initial_def)
  show "scanLines [line_divider, line_milch, line_divider, line_milch]
       = [\<lparr>description = Some (js ''Milch 3.5%''), totalPrice = None, details = None\<rparr>,
          \<lparr>description = Some (js ''Milch 3.5%''), totalPrice = None, details = None\<rparr>]"
    by code_simp
qed

text \<open>
  C5, amended. An item in progress whose description is a non-empty string, with price and
  details \<open>null\<close>, is pushed by the next divider and by the end of the input.
\<close>

theorem C5_description_only_item_is_pushed:
  assumes "description (currentLineItem (scanLoop initial pre)) = Some d" and "d \<noteq> []"
    and "totalPrice (currentLineItem (scanLoop initial pre)) = None"
    and "details (currentLineItem (scanLoop initial pre)) = None"
  shows "(rowDividerRegex l \<noteq> None \<longrightarrow>
            lineItems (scanLoop initial (pre @ [l]))
              = lineItems (scanLoop initial pre) @ [currentLineItem (scanLoop initial pre)])
         \<and> scanLines pre = lineItems (scanLoop initial pre) @ [currentLineItem (scanLoop initial pre)]"
proof -
  have h: "hasData (currentLineItem (scanLoop initial pre))"
    using assms by (simp add: hasData_def)
  then show ?thesis
    by (simp add: scanLoop_append scanLine_divider scanLines_def pushIfData_def)
qed

text \<open>
  C5 at a description line that is followed by a divider.
\<close>

theorem C5_witness:
  "description (currentLineItem (scanLoop initial [line_divider, line_milch])) = Some (js ''Milch 3.5%'')
   \<and> js ''Milch 3.5%'' \<noteq> []
   \<and> totalPrice (currentLineItem (scanLoop initial [line_divider, line_milch])) = None
   \<and> details (currentLineItem (scanLoop initial [line_divider, line_milch])) = None
   \<and> rowDividerRegex line_divider \<noteq> None
   \<and> lineItems (scanLoop initial ([line_divider, line_milch] @ [line_divider]))
        = [\<lparr>description = Some (js ''Milch 3.5%''), totalPrice = None, details = None\<rparr>]
   \<and> scanLines [line_divider, line_milch]
        = [\<lparr>description = Some (js ''Milch 3.5%''), totalPrice = None, details = None\<rparr>]"
proof -
  have a: "description (currentLineItem (scanLoop initial [line_divider, line_milch])) = Some (js ''Milch 3.5%'')"
    by (simp add: after_milch del: scanLoop.simps)
  have b: "js ''Milch 3.5%'' \<noteq> []"
    by (simp add: js_def)
  have c: "totalPrice (currentLineItem (scanLoop initial [line_divider, line_milch])) = None"
    by (simp add: after_milch del: scanLoop.simps)
  have d: "details (currentLineItem (scanLoop initial [line_divider, line_milch])) = None"
    by (simp add: after_milch del: scanLoop.simps)
  from C5_description_only_item_is_pushed [OF a b c d, of line_divider] a b c d divider_matches
  show ?thesis by (simp add: after_milch del: scanLoop.simps)
qed

text \<open>
  C5 as stated fails: a description cell that holds one space sets the description to the
  empty string, price and details stay \<open>null\<close>, and neither the next divider nor the
  end of the input pushes the item.
\<close>

theorem C5_counterexample:
  "currentLineItem (scanLoop initial [line_divider, line_blank])
     = \<lparr>description = Some [], totalPrice = None, details = None\<rparr>
   \<and> rowDividerRegex line_divider \<noteq> None
   \<and> lineItems (scanLoop initial [line_divider, line_blank, line_divider]) = []
   \<and> scanLines [line_divider, line_blank] = []"
  by code_simp

text \<open>
  C9: lines before the first divider leave the variables of the loop as they were at the
  start (no field set, no search flag on, nothing pushed), so the output is that of the
  lines from the first divider on.
\<close>

theorem C9_idle_before_first_divider:
  assumes "\<forall>l \<in> set pre. rowDividerRegex l = None"
  shows "scanLoop initial pre = initial \<and> scanLines (pre @ rest) = scanLines rest"
  using scanLoop_initial_no_divider [OF assms] by (simp add: scanLines_def scanLoop_append)

text \<open>
  C9 at the three lines of an item block that no divider precedes.
\<close>

theorem C9_witness:
  "rowDividerRegex line_milch = None \<and> rowDividerRegex line_price = None
   \<and> rowDividerRegex line_liter = None
   \<and> scanLoop initial [line_milch, line_price, line_liter] = initial
   \<and> scanLines ([line_milch, line_price, line_liter] @ [line_divider, line_milch])
       = scanLines [line_divider, line_milch]"
proof -
  have h: "\<forall>l \<in> set [line_milch, line_price, line_liter]. rowDividerRegex l = None"
    by code_simp
  from C9_idle_before_first_divider [OF h, of "[line_divider, line_milch]"] h
  show ?thesis by simp
qed




end
